theory Spec2Isabelle
  imports Complex_Main "HOL-Library.Word"
begin

section \<open>Data model (storage/cart-store.ts)\<close>

text \<open>
  A TypeScript \<open>number\<close> is a double. The finite doubles are modelled as the reals they
  denote, and \<open>x + y\<close> as \<open>js_add\<close>: the exact sum rounded to the nearest double, a tie
  going to the double whose last bit is even. A double of exponent \<open>e\<close> (at least
  \<open>-1022\<close>, where the subnormal numbers begin) is a multiple of \<open>2^(e - 52)\<close>. A sum whose
  rounding reaches \<open>2^1024\<close> in magnitude is \<open>Infinity\<close> in the program and is not
  modelled; \<open>NaN\<close> appears only where the handler tests for it. Strings are modelled by
  their UTF-8 bytes (\<open>string\<close> is a list of 8-bit characters). The calls to the logger
  and to the metrics recorder are left out throughout: they return nothing that the
  stores or the handlers use.
\<close>

type_synonym number = real

definition round_half_even :: "real \<Rightarrow> int" where
  "round_half_even r =
     (let f = \<lfloor>r\<rfloor>
      in if r - of_int f < 1 / 2 then f
         else if 1 / 2 < r - of_int f then f + 1
         else if even f then f else f + 1)"

definition double_exponent :: "real \<Rightarrow> int" where
  "double_exponent x = max (- 1022) \<lfloor>log 2 \<bar>x\<bar>\<rfloor>"

definition round_double :: "real \<Rightarrow> number" where
  "round_double x =
     (if x = 0 then 0
      else let ulp = 2 powr of_int (double_exponent x - 52)
           in ulp * of_int (round_half_even (x / ulp)))"

definition js_add :: "number \<Rightarrow> number \<Rightarrow> number" where
  "js_add x y = round_double (x + y)"

record CartItem =
  productId :: string
  quantity :: number

record Cart =
  userId :: string
  items :: "CartItem list"

text \<open>
  A value thrown by a storage operation. The catch blocks of the source only ask whether
  it is an \<open>Error\<close> and read its message; a thrown value that is not an \<open>Error\<close> is kept
  with its \<open>String(...)\<close> rendering.
\<close>

datatype thrown = ErrorObj string | NonError string

section \<open>Merge on write (shared by MemoryStore.addItem and RedisStore.addItem)\<close>

text \<open>
  \<^verbatim>\<open>const existingItem = cart.items.find(item => item.productId === productId);
  if (existingItem) { existingItem.quantity += quantity; }
  else { cart.items.push({ productId, quantity }); }\<close>
  \<open>find\<close> returns the first matching element, which is then updated in place.
\<close>

fun increment_first :: "string \<Rightarrow> number \<Rightarrow> CartItem list \<Rightarrow> CartItem list" where
  "increment_first p q [] = []"
| "increment_first p q (item # rest) =
     (if productId item = p then item\<lparr>quantity := js_add (quantity item) q\<rparr> # rest
      else item # increment_first p q rest)"

definition merge_item :: "CartItem list \<Rightarrow> string \<Rightarrow> number \<Rightarrow> CartItem list" where
  "merge_item its p q =
     (case find (\<lambda>item. productId item = p) its of
        Some existingItem \<Rightarrow> increment_first p q its
      | None \<Rightarrow> its @ [\<lparr>productId = p, quantity = q\<rparr>])"

section \<open>MemoryStore (storage/memory-store.ts)\<close>

text \<open>
  The \<open>Map<string, Cart>\<close> of the store is a map from user ids to carts. \<open>addItem\<close>
  updates the stored cart object in place and sets it again; since every stored object is
  created by \<open>addItem\<close> or \<open>emptyCart\<close> for its own key, no two entries share one, and the
  update is that of the one entry.
\<close>

type_synonym MemoryStore = "string \<rightharpoonup> Cart"

definition MemoryStore_init :: MemoryStore where
  "MemoryStore_init = Map.empty"

definition MemoryStore_addItem ::
  "MemoryStore \<Rightarrow> string \<Rightarrow> string \<Rightarrow> number \<Rightarrow> (thrown + unit) \<times> MemoryStore" where
  "MemoryStore_addItem carts u p q =
     (let cart = (case carts u of Some c \<Rightarrow> c | None \<Rightarrow> \<lparr>userId = u, items = []\<rparr>);
          cart' = cart\<lparr>items := merge_item (items cart) p q\<rparr>
      in (Inr (), carts(u \<mapsto> cart')))"

definition MemoryStore_getCart ::
  "MemoryStore \<Rightarrow> string \<Rightarrow> (thrown + Cart) \<times> MemoryStore" where
  "MemoryStore_getCart carts u =
     (case carts u of
        Some cart \<Rightarrow> (Inr cart, carts)
      | None \<Rightarrow> (Inr \<lparr>userId = u, items = []\<rparr>, carts))"

definition MemoryStore_emptyCart ::
  "MemoryStore \<Rightarrow> string \<Rightarrow> (thrown + unit) \<times> MemoryStore" where
  "MemoryStore_emptyCart carts u = (Inr (), carts(u \<mapsto> \<lparr>userId = u, items = []\<rparr>))"

definition MemoryStore_ping :: "MemoryStore \<Rightarrow> (thrown + bool) \<times> MemoryStore" where
  "MemoryStore_ping carts = (Inr True, carts)"

section \<open>Binary schema of the Remote Store\<close>

type_synonym byte = "8 word"
type_synonym Buffer = "byte list"

text \<open>
  Modelled from the spec: \<open>proto/demo.proto\<close> and the protobuf codec behind
  \<open>CartMessage.verify\<close>, \<open>CartMessage.encode\<close> and \<open>CartMessage.decode\<close> are not part of
  the sources. The messages are those of section 6 of the specification,
  \<^verbatim>\<open>Cart     { field 1: string userId;    field 2: repeated CartItem items }
  CartItem { field 1: string productId; field 2: int32 quantity }\<close>
  in the protobuf wire format: a field is a key \<open>8 * field number + wire type\<close> written as
  a base-128 varint, followed by a varint (wire type 0), eight bytes (1), a length-prefixed
  byte sequence (2) or four bytes (5). The encoder writes every field that is set; the
  decoder skips fields it does not know, lets the last occurrence of a scalar field win
  and collects the occurrences of a repeated field in order.
\<close>

fun put_varint :: "nat \<Rightarrow> Buffer" where
  "put_varint n =
     (if n < 128 then [of_nat n] else of_nat (128 + n mod 128) # put_varint (n div 128))"

declare put_varint.simps [simp del]

fun get_varint :: "Buffer \<Rightarrow> (nat \<times> Buffer) option" where
  "get_varint [] = None"
| "get_varint (b # bs) =
     (if unat b < 128 then Some (unat b, bs)
      else case get_varint bs of
             None \<Rightarrow> None
           | Some (n, rest) \<Rightarrow> Some (unat b - 128 + 128 * n, rest))"

text \<open>
  The fields of a buffer in the wire format. \<open>parse_fields\<close> reads a buffer that consists
  of complete fields and of nothing else; it states the layout of an encoding and which
  buffers are well-formed. It is not the decoder of the program, which accepts more and
  follows the encoder below.
\<close>

datatype wire_value =
  Varint nat | Fixed64 Buffer | LengthDelimited Buffer | Fixed32 Buffer

definition take_bytes :: "nat \<Rightarrow> Buffer \<Rightarrow> (Buffer \<times> Buffer) option" where
  "take_bytes n bs = (if n \<le> length bs then Some (take n bs, drop n bs) else None)"

definition get_field :: "Buffer \<Rightarrow> ((nat \<times> wire_value) \<times> Buffer) option" where
  "get_field bs =
     (case get_varint bs of
        None \<Rightarrow> None
      | Some (key, r) \<Rightarrow>
          (if key mod 8 = 0 then
             (case get_varint r of
                None \<Rightarrow> None
              | Some (v, r') \<Rightarrow> Some ((key div 8, Varint v), r'))
           else if key mod 8 = 1 then
             (case take_bytes 8 r of
                None \<Rightarrow> None
              | Some (v, r') \<Rightarrow> Some ((key div 8, Fixed64 v), r'))
           else if key mod 8 = 2 then
             (case get_varint r of
                None \<Rightarrow> None
              | Some (len, r') \<Rightarrow>
                  (case take_bytes len r' of
                     None \<Rightarrow> None
                   | Some (v, r'') \<Rightarrow> Some ((key div 8, LengthDelimited v), r'')))
           else if key mod 8 = 5 then
             (case take_bytes 4 r of
                None \<Rightarrow> None
              | Some (v, r') \<Rightarrow> Some ((key div 8, Fixed32 v), r'))
           else None))"

lemma get_varint_shorter: "get_varint bs = Some (n, rest) \<Longrightarrow> length rest < length bs"
  by (induction bs arbitrary: n rest) (auto split: if_splits option.splits)

lemma take_bytes_shorter: "take_bytes n bs = Some (v, rest) \<Longrightarrow> length rest \<le> length bs"
  by (auto simp: take_bytes_def split: if_splits)

lemma get_field_shorter:
  assumes "get_field bs = Some (f, rest)"
  shows "length rest < length bs"
proof -
  from assms obtain key r where key: "get_varint bs = Some (key, r)"
    by (auto simp: get_field_def split: option.splits)
  then have r: "length r < length bs"
    by (rule get_varint_shorter)
  have "length rest \<le> length r"
    using assms key
    by (auto simp: get_field_def split: option.splits if_splits
             dest!: get_varint_shorter take_bytes_shorter)
  with r show ?thesis by simp
qed

function parse_fields :: "Buffer \<Rightarrow> (nat \<times> wire_value) list option" where
  "parse_fields bs =
     (if bs = [] then Some []
      else case get_field bs of
             None \<Rightarrow> None
           | Some (f, rest) \<Rightarrow>
               (case parse_fields rest of
                  None \<Rightarrow> None
                | Some fs \<Rightarrow> Some (f # fs)))"
  by pat_completeness auto
termination
  by (relation "measure length") (auto dest: get_field_shorter)

declare parse_fields.simps [simp del]

definition key_of :: "nat \<Rightarrow> nat \<Rightarrow> Buffer" where
  "key_of field_number wire_type = put_varint (8 * field_number + wire_type)"

definition bytes_of_string :: "string \<Rightarrow> Buffer" where
  "bytes_of_string s = map (\<lambda>c. of_nat (of_char c)) s"

definition string_of_bytes :: "Buffer \<Rightarrow> string" where
  "string_of_bytes bs = map (\<lambda>b. char_of (unat b)) bs"

definition put_string :: "nat \<Rightarrow> string \<Rightarrow> Buffer" where
  "put_string field_number s =
     key_of field_number 2 @ put_varint (length s) @ bytes_of_string s"

definition put_message :: "nat \<Rightarrow> Buffer \<Rightarrow> Buffer" where
  "put_message field_number body = key_of field_number 2 @ put_varint (length body) @ body"

text \<open>
  An \<open>int32\<close> field: a non-negative value is written as the varint of its low 32 bits, a
  negative one as the ten-byte varint of its 64-bit two's complement; reading keeps the
  low 32 bits as a signed value.
\<close>

definition int32_wire :: "int \<Rightarrow> nat" where
  "int32_wire v = (if v < 0 then nat (v mod 2 ^ 64) else nat (v mod 2 ^ 32))"

definition put_int32 :: "nat \<Rightarrow> int \<Rightarrow> Buffer" where
  "put_int32 field_number v = key_of field_number 0 @ put_varint (int32_wire v)"

definition int32_of_varint :: "nat \<Rightarrow> int" where
  "int32_of_varint n =
     (let w = int n mod 2 ^ 32 in if w < 2 ^ 31 then w else w - 2 ^ 32)"

definition is_integer :: "number \<Rightarrow> bool" where
  "is_integer x = (of_int \<lfloor>x\<rfloor> = x)"

text \<open>Modelled from the spec: \<open>CartMessage.encode\<close>, for the two messages of section 6.\<close>

definition CartItem_encode :: "CartItem \<Rightarrow> Buffer" where
  "CartItem_encode item = put_string 1 (productId item) @ put_int32 2 \<lfloor>quantity item\<rfloor>"

definition Cart_encode :: "Cart \<Rightarrow> Buffer" where
  "Cart_encode cart =
     put_string 1 (userId cart) @
     concat (map (\<lambda>item. put_message 2 (CartItem_encode item)) (items cart))"

text \<open>
  Modelled from the spec: \<open>CartMessage.decode\<close> for the two messages of section 6, after
  the reader that protobufjs runs on a Node \<open>Buffer\<close> (the library is not part of the
  sources). It reads a key and selects on the field number alone, whatever the wire type
  of the key:
  \<^item> a \<open>string\<close> field reads a length and takes that many bytes, or as many as are left
    when the buffer is shorter (\<open>Math.min(pos + len, this.len)\<close>);
  \<^item> the \<open>int32\<close> field reads a varint and keeps its low 32 bits as a signed value;
  \<^item> the repeated message field reads a length \<open>l\<close> and decodes an item from the same
    reader until at least \<open>l\<close> bytes have been consumed, without checking \<open>l\<close> against
    the buffer;
  \<^item> any other field is skipped by its wire type: a varint, 8 bytes, a length and that
    many bytes, a group up to its end key, 4 bytes; skipping throws on other wire types
    and when the bytes to skip are not all there;
  \<^item> reading a varint at the end of the buffer throws.
  A varint is read to its last byte and taken whole. The library keeps the low 32 bits
  of a key or a length and reads at most ten bytes, which is the same for a varint of at
  most five bytes below \<open>2^32\<close> and for the ten bytes of a negative \<open>int32\<close>. The bytes of
  a string are kept as they are, also where they are not UTF-8 and the library puts
  \<open>U+FFFD\<close>.
\<close>

definition read_string :: "Buffer \<Rightarrow> (string \<times> Buffer) option" where
  "read_string bs =
     (case get_varint bs of
        None \<Rightarrow> None
      | Some (len, r) \<Rightarrow> Some (string_of_bytes (take len r), drop len r))"

definition read_int32 :: "Buffer \<Rightarrow> (int \<times> Buffer) option" where
  "read_int32 bs =
     (case get_varint bs of
        None \<Rightarrow> None
      | Some (n, r) \<Rightarrow> Some (int32_of_varint n, r))"

definition skip :: "nat \<Rightarrow> Buffer \<Rightarrow> Buffer option" where
  "skip n bs = (if n \<le> length bs then Some (drop n bs) else None)"

definition skip_plain :: "nat \<Rightarrow> Buffer \<Rightarrow> Buffer option" where
  "skip_plain wire_type bs =
     (if wire_type = 0 then
        (case get_varint bs of None \<Rightarrow> None | Some (n, r) \<Rightarrow> Some r)
      else if wire_type = 1 then skip 8 bs
      else if wire_type = 2 then
        (case get_varint bs of None \<Rightarrow> None | Some (n, r) \<Rightarrow> skip n r)
      else if wire_type = 5 then skip 4 bs
      else None)"

lemma skip_plain_shorter: "skip_plain wire_type bs = Some r \<Longrightarrow> length r \<le> length bs"
  by (auto simp: skip_plain_def skip_def split: if_splits option.splits
           dest!: get_varint_shorter)

text \<open>\<^verbatim>\<open>while ((wireType = this.uint32() & 7) !== 4) this.skipType(wireType)\<close>, the
  recursion of \<open>skipType\<close> on nested groups counted by \<open>depth\<close>.\<close>

function skip_group :: "nat \<Rightarrow> Buffer \<Rightarrow> Buffer option" where
  "skip_group depth bs =
     (case get_varint bs of
        None \<Rightarrow> None
      | Some (key, r) \<Rightarrow>
          (if key mod 8 = 4 then (if depth = 0 then Some r else skip_group (depth - 1) r)
           else if key mod 8 = 3 then skip_group (depth + 1) r
           else (case skip_plain (key mod 8) r of
                   None \<Rightarrow> None
                 | Some r' \<Rightarrow> skip_group depth r')))"
  by pat_completeness auto
termination
  by (relation "measure (\<lambda>(depth, bs). length bs)")
     (auto dest!: get_varint_shorter skip_plain_shorter)

declare skip_group.simps [simp del]

definition skipType :: "nat \<Rightarrow> Buffer \<Rightarrow> Buffer option" where
  "skipType wire_type bs = (if wire_type = 3 then skip_group 0 bs else skip_plain wire_type bs)"

lemma skip_group_shorter: "skip_group depth bs = Some r \<Longrightarrow> length r \<le> length bs"
proof (induction depth bs rule: skip_group.induct)
  case (1 depth bs)
  from "1.prems" obtain key r0 where k: "get_varint bs = Some (key, r0)"
    by (subst (asm) skip_group.simps) (auto split: option.splits)
  then have r0: "length r0 < length bs"
    by (rule get_varint_shorter)
  have "length r \<le> length r0"
  proof (cases "key mod 8 = 4")
    case True
    show ?thesis
    proof (cases "depth = 0")
      case d0: True
      with "1.prems" k True show ?thesis
        by (subst (asm) skip_group.simps) auto
    next
      case d: False
      with "1.prems" k True have "skip_group (depth - 1) r0 = Some r"
        by (subst (asm) skip_group.simps) auto
      with "1.IH"(1) [OF k refl True d] show ?thesis
        by simp
    qed
  next
    case False
    show ?thesis
    proof (cases "key mod 8 = 3")
      case True
      with "1.prems" k False "1.IH"(2) [OF k refl False True] show ?thesis
        by (subst (asm) skip_group.simps) auto
    next
      case n3: False
      with "1.prems" k False obtain r' where
        p: "skip_plain (key mod 8) r0 = Some r'" and g: "skip_group depth r' = Some r"
        by (subst (asm) skip_group.simps) (auto split: option.splits)
      from "1.IH"(3) [OF k refl False n3 p] g
      have "length r \<le> length r'"
        by simp
      with skip_plain_shorter [OF p] show ?thesis
        by simp
    qed
  qed
  with r0 show ?case by simp
qed

lemma skipType_shorter: "skipType wire_type bs = Some r \<Longrightarrow> length r \<le> length bs"
  by (auto simp: skipType_def split: if_splits dest: skip_group_shorter skip_plain_shorter)

definition CartItem_field ::
  "nat \<Rightarrow> nat \<Rightarrow> Buffer \<Rightarrow> CartItem \<Rightarrow> (CartItem \<times> Buffer) option" where
  "CartItem_field field_number wire_type r m =
     (if field_number = 1 then
        (case read_string r of
           None \<Rightarrow> None
         | Some (s, r') \<Rightarrow> Some (m\<lparr>productId := s\<rparr>, r'))
      else if field_number = 2 then
        (case read_int32 r of
           None \<Rightarrow> None
         | Some (v, r') \<Rightarrow> Some (m\<lparr>quantity := of_int v\<rparr>, r'))
      else
        (case skipType wire_type r of
           None \<Rightarrow> None
         | Some r' \<Rightarrow> Some (m, r')))"

lemma CartItem_field_shorter:
  "CartItem_field field_number wire_type r m = Some (m', r') \<Longrightarrow> length r' \<le> length r"
  by (auto simp: CartItem_field_def read_string_def read_int32_def
           split: if_splits option.splits
           dest!: get_varint_shorter skipType_shorter)

text \<open>\<^verbatim>\<open>var c = l === undefined ? r.len : r.pos + l; while (r.pos < c) { var t = r.uint32();
  switch (t >>> 3) { ... } }\<close>: \<open>l\<close> is what is left of the length.\<close>

function CartItem_decode_loop ::
  "nat \<Rightarrow> Buffer \<Rightarrow> CartItem \<Rightarrow> (CartItem \<times> Buffer) option" where
  "CartItem_decode_loop l bs m =
     (if l = 0 then Some (m, bs)
      else case get_varint bs of
             None \<Rightarrow> None
           | Some (t, r) \<Rightarrow>
               (case CartItem_field (t div 8) (t mod 8) r m of
                  None \<Rightarrow> None
                | Some (m', r') \<Rightarrow>
                    CartItem_decode_loop (l - (length bs - length r')) r' m'))"
  by pat_completeness auto
termination
  by (relation "measure (\<lambda>(l, bs, m). length bs)")
     (auto dest!: get_varint_shorter CartItem_field_shorter)

declare CartItem_decode_loop.simps [simp del]

lemma CartItem_decode_loop_shorter:
  "CartItem_decode_loop l bs m = Some (m', r) \<Longrightarrow> length r \<le> length bs"
proof (induction l bs m rule: CartItem_decode_loop.induct)
  case (1 l bs m)
  show ?case
  proof (cases "l = 0")
    case True
    with "1.prems" show ?thesis
      by (subst (asm) CartItem_decode_loop.simps) simp
  next
    case False
    with "1.prems" obtain t r0 m1 r1 where
      k: "get_varint bs = Some (t, r0)"
      and f: "CartItem_field (t div 8) (t mod 8) r0 m = Some (m1, r1)"
      and g: "CartItem_decode_loop (l - (length bs - length r1)) r1 m1 = Some (m', r)"
      by (subst (asm) CartItem_decode_loop.simps) (auto split: option.splits)
    from "1.IH" [OF False k refl f refl] g
    have "length r \<le> length r1"
      by simp
    with get_varint_shorter [OF k] CartItem_field_shorter [OF f] show ?thesis
      by simp
  qed
qed

definition Cart_field ::
  "nat \<Rightarrow> nat \<Rightarrow> Buffer \<Rightarrow> Cart \<Rightarrow> (Cart \<times> Buffer) option" where
  "Cart_field field_number wire_type r m =
     (if field_number = 1 then
        (case read_string r of
           None \<Rightarrow> None
         | Some (s, r') \<Rightarrow> Some (m\<lparr>userId := s\<rparr>, r'))
      else if field_number = 2 then
        (case get_varint r of
           None \<Rightarrow> None
         | Some (l, r1) \<Rightarrow>
             (case CartItem_decode_loop l r1 \<lparr>productId = [], quantity = 0\<rparr> of
                None \<Rightarrow> None
              | Some (ci, r2) \<Rightarrow> Some (m\<lparr>items := items m @ [ci]\<rparr>, r2)))
      else
        (case skipType wire_type r of
           None \<Rightarrow> None
         | Some r' \<Rightarrow> Some (m, r')))"

lemma Cart_field_shorter:
  "Cart_field field_number wire_type r m = Some (m', r') \<Longrightarrow> length r' \<le> length r"
  by (auto simp: Cart_field_def read_string_def split: if_splits option.splits
           dest!: get_varint_shorter skipType_shorter CartItem_decode_loop_shorter)

function Cart_decode_loop :: "nat \<Rightarrow> Buffer \<Rightarrow> Cart \<Rightarrow> (Cart \<times> Buffer) option" where
  "Cart_decode_loop l bs m =
     (if l = 0 then Some (m, bs)
      else case get_varint bs of
             None \<Rightarrow> None
           | Some (t, r) \<Rightarrow>
               (case Cart_field (t div 8) (t mod 8) r m of
                  None \<Rightarrow> None
                | Some (m', r') \<Rightarrow>
                    Cart_decode_loop (l - (length bs - length r')) r' m'))"
  by pat_completeness auto
termination
  by (relation "measure (\<lambda>(l, bs, m). length bs)")
     (auto dest!: get_varint_shorter Cart_field_shorter)

declare Cart_decode_loop.simps [simp del]

definition Cart_decode :: "Buffer \<Rightarrow> Cart option" where
  "Cart_decode bs =
     (case Cart_decode_loop (length bs) bs \<lparr>userId = [], items = []\<rparr> of
        None \<Rightarrow> None
      | Some (message, r) \<Rightarrow> Some message)"

text \<open>Modelled from the spec: \<open>CartMessage.verify\<close>. The only check a typed \<open>Cart\<close> can
  fail is that of an \<open>int32\<close> field, which must hold an integer.\<close>

definition Cart_verify :: "Cart \<Rightarrow> string option" where
  "Cart_verify cart =
     (if list_all (\<lambda>item. is_integer (quantity item)) (items cart) then None
      else Some ''items.quantity: integer expected'')"

section \<open>RedisStore (storage/redis-store.ts)\<close>

text \<open>
  The ioredis client and the server behind it are external. The model keeps the server's
  key space, the reply the server gives to \<open>PING\<close>, and a schedule of the outcomes of the
  commands still to come: \<open>Some e\<close> when the command is rejected with \<open>e\<close> (connection
  lost, retries exhausted), \<open>None\<close> when it reaches the server; past the end of the
  schedule every command reaches the server. A rejected command changes no key.
\<close>

record RedisClient =
  keyspace :: "string \<rightharpoonup> Buffer"
  faults :: "thrown option list"
  ping_reply :: string

definition next_outcome :: "RedisClient \<Rightarrow> thrown option \<times> RedisClient" where
  "next_outcome c =
     (case faults c of
        [] \<Rightarrow> (None, c)
      | f # fs \<Rightarrow> (f, c\<lparr>faults := fs\<rparr>))"

definition client_getBuffer ::
  "RedisClient \<Rightarrow> string \<Rightarrow> (thrown + Buffer option) \<times> RedisClient" where
  "client_getBuffer c key =
     (case next_outcome c of
        (Some e, c') \<Rightarrow> (Inl e, c')
      | (None, c') \<Rightarrow> (Inr (keyspace c' key), c'))"

definition client_set ::
  "RedisClient \<Rightarrow> string \<Rightarrow> Buffer \<Rightarrow> (thrown + unit) \<times> RedisClient" where
  "client_set c key v =
     (case next_outcome c of
        (Some e, c') \<Rightarrow> (Inl e, c')
      | (None, c') \<Rightarrow> (Inr (), c'\<lparr>keyspace := (keyspace c')(key \<mapsto> v)\<rparr>))"

definition client_ping :: "RedisClient \<Rightarrow> (thrown + string) \<times> RedisClient" where
  "client_ping c =
     (case next_outcome c of
        (Some e, c') \<Rightarrow> (Inl e, c')
      | (None, c') \<Rightarrow> (Inr (ping_reply c'), c'))"

text \<open>\<^verbatim>\<open>error instanceof Error ? error.message : 'Unknown error'\<close> and
  \<^verbatim>\<open>throw new Error(`Can't access cart storage: ${message}`)\<close>, the catch block of every
  operation of the store.\<close>

definition storage_error :: "thrown \<Rightarrow> thrown" where
  "storage_error e =
     ErrorObj (''Can't access cart storage: '' @
               (case e of ErrorObj message \<Rightarrow> message | NonError _ \<Rightarrow> ''Unknown error''))"

definition serializeCart :: "Cart \<Rightarrow> thrown + Buffer" where
  "serializeCart cart =
     (let protoCart =
            \<lparr>userId = userId cart,
             items = map (\<lambda>item. \<lparr>productId = productId item, quantity = quantity item\<rparr>)
                         (items cart)\<rparr>
      in case Cart_verify protoCart of
           Some errMsg \<Rightarrow> Inl (ErrorObj (''Invalid cart message: '' @ errMsg))
         | None \<Rightarrow> Inr (Cart_encode protoCart))"

text \<open>\<^verbatim>\<open>userId: message.userId || ''\<close>, \<^verbatim>\<open>productId: item.productId || ''\<close> and
  \<^verbatim>\<open>quantity: item.quantity || 0\<close> replace a falsy field by the default. When the
  decoder throws, it throws an \<open>Error\<close> of the library (\<open>index out of range: ...\<close> or
  \<open>invalid wire type ...\<close>); the catch blocks only pass its message on, and the model
  keeps one message for all of them.\<close>

definition deserializeCart :: "Buffer \<Rightarrow> thrown + Cart" where
  "deserializeCart buffer =
     (case Cart_decode buffer of
        None \<Rightarrow> Inl (ErrorObj ''index out of range'')
      | Some message \<Rightarrow>
          Inr \<lparr>userId = (if userId message = [] then [] else userId message),
               items = map (\<lambda>item.
                              \<lparr>productId = (if productId item = [] then [] else productId item),
                               quantity = (if quantity item = 0 then 0 else quantity item)\<rparr>)
                           (items message)\<rparr>)"

definition getCartKey :: "string \<Rightarrow> string" where
  "getCartKey u = ''cart:'' @ u"

definition RedisStore_getCart ::
  "RedisClient \<Rightarrow> string \<Rightarrow> (thrown + Cart) \<times> RedisClient" where
  "RedisStore_getCart c u =
     (case client_getBuffer c (getCartKey u) of
        (Inl e, c') \<Rightarrow> (Inl (storage_error e), c')
      | (Inr None, c') \<Rightarrow> (Inr \<lparr>userId = u, items = []\<rparr>, c')
      | (Inr (Some data), c') \<Rightarrow>
          (case deserializeCart data of
             Inl e \<Rightarrow> (Inl (storage_error e), c')
           | Inr cart \<Rightarrow> (Inr cart, c')))"

definition RedisStore_addItem ::
  "RedisClient \<Rightarrow> string \<Rightarrow> string \<Rightarrow> number \<Rightarrow> (thrown + unit) \<times> RedisClient" where
  "RedisStore_addItem c u p q =
     (case RedisStore_getCart c u of
        (Inl e, c') \<Rightarrow> (Inl (storage_error e), c')
      | (Inr cart, c') \<Rightarrow>
          (let cart' = cart\<lparr>items := merge_item (items cart) p q\<rparr>
           in case serializeCart cart' of
                Inl e \<Rightarrow> (Inl (storage_error e), c')
              | Inr serialized \<Rightarrow>
                  (case client_set c' (getCartKey u) serialized of
                     (Inl e, c'') \<Rightarrow> (Inl (storage_error e), c'')
                   | (Inr _, c'') \<Rightarrow> (Inr (), c''))))"

definition RedisStore_emptyCart ::
  "RedisClient \<Rightarrow> string \<Rightarrow> (thrown + unit) \<times> RedisClient" where
  "RedisStore_emptyCart c u =
     (case serializeCart \<lparr>userId = u, items = []\<rparr> of
        Inl e \<Rightarrow> (Inl (storage_error e), c)
      | Inr serialized \<Rightarrow>
          (case client_set c (getCartKey u) serialized of
             (Inl e, c') \<Rightarrow> (Inl (storage_error e), c')
           | (Inr _, c') \<Rightarrow> (Inr (), c')))"

definition RedisStore_ping :: "RedisClient \<Rightarrow> (thrown + bool) \<times> RedisClient" where
  "RedisStore_ping c =
     (case client_ping c of
        (Inl e, c') \<Rightarrow> (Inr False, c')
      | (Inr result, c') \<Rightarrow> (Inr (result = ''PONG''), c'))"

section \<open>The storage contract (ICartStore) and its two backends\<close>

record 's ICartStore =
  addItem :: "'s \<Rightarrow> string \<Rightarrow> string \<Rightarrow> number \<Rightarrow> (thrown + unit) \<times> 's"
  getCart :: "'s \<Rightarrow> string \<Rightarrow> (thrown + Cart) \<times> 's"
  emptyCart :: "'s \<Rightarrow> string \<Rightarrow> (thrown + unit) \<times> 's"
  ping :: "'s \<Rightarrow> (thrown + bool) \<times> 's"

definition MemoryStore :: "MemoryStore ICartStore" where
  "MemoryStore =
     \<lparr>addItem = MemoryStore_addItem, getCart = MemoryStore_getCart,
      emptyCart = MemoryStore_emptyCart, ping = MemoryStore_ping\<rparr>"

definition RedisStore :: "RedisClient ICartStore" where
  "RedisStore =
     \<lparr>addItem = RedisStore_addItem, getCart = RedisStore_getCart,
      emptyCart = RedisStore_emptyCart, ping = RedisStore_ping\<rparr>"

text \<open>Sequential execution of cart operations against a store; failures of single
  operations do not stop the sequence.\<close>

datatype operation = AddItem string string number | GetCart string | EmptyCart string

definition apply_operation :: "'s ICartStore \<Rightarrow> operation \<Rightarrow> 's \<Rightarrow> 's" where
  "apply_operation store operation s =
     (case operation of
        AddItem u p q \<Rightarrow> snd (addItem store s u p q)
      | GetCart u \<Rightarrow> snd (getCart store s u)
      | EmptyCart u \<Rightarrow> snd (emptyCart store s u))"

definition run :: "'s ICartStore \<Rightarrow> operation list \<Rightarrow> 's \<Rightarrow> 's" where
  "run store operations s = fold (apply_operation store) operations s"

text \<open>A store that records every call made to it before passing it on, to observe which
  storage operations a handler invokes.\<close>

datatype store_call =
  AddItemCall string string number | GetCartCall string | EmptyCartCall string | PingCall

definition recording :: "'s ICartStore \<Rightarrow> ('s \<times> store_call list) ICartStore" where
  "recording store =
     \<lparr>addItem = (\<lambda>(s, calls) u p q.
         case addItem store s u p q of (r, s') \<Rightarrow> (r, (s', calls @ [AddItemCall u p q]))),
      getCart = (\<lambda>(s, calls) u.
         case getCart store s u of (r, s') \<Rightarrow> (r, (s', calls @ [GetCartCall u]))),
      emptyCart = (\<lambda>(s, calls) u.
         case emptyCart store s u of (r, s') \<Rightarrow> (r, (s', calls @ [EmptyCartCall u]))),
      ping = (\<lambda>(s, calls).
         case ping store s of (r, s') \<Rightarrow> (r, (s', calls @ [PingCall])))\<rparr>"

section \<open>Request handlers (handlers/cart-handler.ts)\<close>

text \<open>
  \<open>String.prototype.trim\<close> removes white space and line terminators: U+0009 to U+000D,
  U+0020, U+00A0, U+1680, U+2000 to U+200A, U+2028, U+2029, U+202F, U+205F, U+3000 and
  U+FEFF, here in their UTF-8 encodings. \<open>s.trim() === ''\<close> holds exactly when nothing
  is left after the leading white space of \<open>s\<close> is removed.
\<close>

definition whitespace3 :: "char \<Rightarrow> char \<Rightarrow> char \<Rightarrow> bool" where
  "whitespace3 a b c =
     (let x = (of_char a :: nat); y = (of_char b :: nat); z = (of_char c :: nat)
      in (x = 0xE1 \<and> y = 0x9A \<and> z = 0x80)
       \<or> (x = 0xE2 \<and> y = 0x80 \<and> (0x80 \<le> z \<and> z \<le> 0x8A \<or> z = 0xA8 \<or> z = 0xA9 \<or> z = 0xAF))
       \<or> (x = 0xE2 \<and> y = 0x81 \<and> z = 0x9F)
       \<or> (x = 0xE3 \<and> y = 0x80 \<and> z = 0x80)
       \<or> (x = 0xEF \<and> y = 0xBB \<and> z = 0xBF))"

fun trimStart :: "string \<Rightarrow> string" where
  "trimStart [] = []"
| "trimStart (a # s) =
     (if (9 \<le> (of_char a :: nat) \<and> (of_char a :: nat) \<le> 13) \<or> (of_char a :: nat) = 32
      then trimStart s
      else case s of
             [] \<Rightarrow> a # s
           | b # s' \<Rightarrow>
               (if (of_char a :: nat) = 0xC2 \<and> (of_char b :: nat) = 0xA0 then trimStart s'
                else case s' of
                       [] \<Rightarrow> a # s
                     | c # s'' \<Rightarrow> if whitespace3 a b c then trimStart s'' else a # s))"

text \<open>\<^verbatim>\<open>!field || field.trim() === ''\<close>: the field is missing (\<open>undefined\<close>, \<open>null\<close>),
  empty or blank. \<open>required\<close> yields the string when the check passes.\<close>

definition required :: "string option \<Rightarrow> string option" where
  "required field =
     (case field of
        None \<Rightarrow> None
      | Some s \<Rightarrow> if s = [] \<or> trimStart s = [] then None else Some s)"

text \<open>The \<open>quantity\<close> of a request as the handler may find it: absent, \<open>NaN\<close>, or a
  number. \<^verbatim>\<open>!quantity || quantity <= 0\<close> rejects the first two, zero and the negative
  numbers; \<open>accepted_quantity\<close> yields the number when the check passes.\<close>

datatype quantity_field = Undefined | NotANumber | Number number

definition accepted_quantity :: "quantity_field \<Rightarrow> number option" where
  "accepted_quantity field =
     (case field of
        Undefined \<Rightarrow> None
      | NotANumber \<Rightarrow> None
      | Number x \<Rightarrow> if x = 0 \<or> x \<le> 0 then None else Some x)"

record ItemPayload =
  product_id :: "string option"
  quantity_of :: quantity_field

record GetCartRequest =
  user_id :: "string option"

type_synonym EmptyCartRequest = GetCartRequest

record AddItemRequest = GetCartRequest +
  item :: "ItemPayload option"

datatype grpc_status = INVALID_ARGUMENT | FAILED_PRECONDITION

datatype 'a callback = Success 'a | Failure grpc_status string

record CartItemResponse =
  response_product_id :: string
  response_quantity :: number

record CartResponse =
  response_user_id :: string
  response_items :: "CartItemResponse list"

text \<open>\<^verbatim>\<open>`Can't access cart storage: ${error instanceof Error ? error.message : String(error)}`\<close>\<close>

definition failed_precondition :: "thrown \<Rightarrow> 'a callback" where
  "failed_precondition error =
     Failure FAILED_PRECONDITION
       (''Can't access cart storage: '' @
        (case error of ErrorObj message \<Rightarrow> message | NonError rendering \<Rightarrow> rendering))"

definition handle_addItem ::
  "'s ICartStore \<Rightarrow> AddItemRequest \<Rightarrow> 's \<Rightarrow> unit callback \<times> 's" where
  "handle_addItem store request s =
     (case required (user_id request) of
        None \<Rightarrow> (Failure INVALID_ARGUMENT ''user_id is required'', s)
      | Some u \<Rightarrow>
     (case item request of
        None \<Rightarrow> (Failure INVALID_ARGUMENT ''item is required'', s)
      | Some payload \<Rightarrow>
     (case required (product_id payload) of
        None \<Rightarrow> (Failure INVALID_ARGUMENT ''product_id is required'', s)
      | Some p \<Rightarrow>
     (case accepted_quantity (quantity_of payload) of
        None \<Rightarrow> (Failure INVALID_ARGUMENT ''quantity must be greater than 0'', s)
      | Some q \<Rightarrow>
     (case addItem store s u p q of
        (Inl error, s') \<Rightarrow> (failed_precondition error, s')
      | (Inr _, s') \<Rightarrow> (Success (), s'))))))"

definition handle_getCart ::
  "'s ICartStore \<Rightarrow> GetCartRequest \<Rightarrow> 's \<Rightarrow> CartResponse callback \<times> 's" where
  "handle_getCart store request s =
     (case required (user_id request) of
        None \<Rightarrow> (Failure INVALID_ARGUMENT ''user_id is required'', s)
      | Some u \<Rightarrow>
     (case getCart store s u of
        (Inl error, s') \<Rightarrow> (failed_precondition error, s')
      | (Inr cart, s') \<Rightarrow>
          (Success \<lparr>response_user_id = userId cart,
                    response_items =
                      map (\<lambda>item. \<lparr>response_product_id = productId item,
                                    response_quantity = quantity item\<rparr>)
                          (items cart)\<rparr>, s')))"

definition handle_emptyCart ::
  "'s ICartStore \<Rightarrow> EmptyCartRequest \<Rightarrow> 's \<Rightarrow> unit callback \<times> 's" where
  "handle_emptyCart store request s =
     (case required (user_id request) of
        None \<Rightarrow> (Failure INVALID_ARGUMENT ''user_id is required'', s)
      | Some u \<Rightarrow>
     (case emptyCart store s u of
        (Inl error, s') \<Rightarrow> (failed_precondition error, s')
      | (Inr _, s') \<Rightarrow> (Success (), s')))"

section \<open>Health handler\<close>

datatype ServingStatus = UNKNOWN | SERVING | NOT_SERVING

definition check :: "'s ICartStore \<Rightarrow> 's \<Rightarrow> ServingStatus \<times> 's" where
  "check store s =
     (case ping store s of
        (Inl error, s') \<Rightarrow> (NOT_SERVING, s')
      | (Inr isStorageHealthy, s') \<Rightarrow>
          (if isStorageHealthy then (SERVING, s') else (NOT_SERVING, s')))"

section \<open>Notions used to state the properties\<close>

text \<open>The value an integer takes when it is stored in 32 bits, two's complement.\<close>

definition wrap32 :: "int \<Rightarrow> int" where
  "wrap32 v = (v + 2 ^ 31) mod 2 ^ 32 - 2 ^ 31"

definition wrap_item :: "CartItem \<Rightarrow> CartItem" where
  "wrap_item ci = \<lparr>productId = productId ci, quantity = of_int (wrap32 \<lfloor>quantity ci\<rfloor>)\<rparr>"

definition int32_quantity :: "number \<Rightarrow> bool" where
  "int32_quantity x = (is_integer x \<and> - (2 ^ 31) \<le> x \<and> x < 2 ^ 31)"

text \<open>The entries of a cart for one product, and the carts without duplicate products.\<close>

definition entries_for :: "string \<Rightarrow> Cart \<Rightarrow> CartItem list" where
  "entries_for p cart = filter (\<lambda>ci. productId ci = p) (items cart)"

definition unique_products :: "Cart \<Rightarrow> bool" where
  "unique_products cart = distinct (map productId (items cart))"

text \<open>
  \<open>others_kept p old new\<close>: every position of \<open>old\<close> still holds the same product in
  \<open>new\<close>, with the same item unless the product is \<open>p\<close>, and whatever \<open>new\<close> has beyond
  the length of \<open>old\<close> is an entry for \<open>p\<close>.
\<close>

definition others_kept :: "string \<Rightarrow> CartItem list \<Rightarrow> CartItem list \<Rightarrow> bool" where
  "others_kept p old new =
     (length old \<le> length new \<and>
      list_all2 (\<lambda>a b. productId b = productId a \<and> (productId a = p \<or> b = a))
                old (take (length old) new) \<and>
      list_all (\<lambda>b. productId b = p) (drop (length old) new))"

text \<open>What \<open>RedisStore.getCart\<close> yields for a user when its read reaches the server.\<close>

definition stored_cart :: "(string \<rightharpoonup> Buffer) \<Rightarrow> string \<Rightarrow> thrown + Cart" where
  "stored_cart ks u =
     (case ks (getCartKey u) of
        None \<Rightarrow> Inr \<lparr>userId = u, items = []\<rparr>
      | Some data \<Rightarrow>
          (case deserializeCart data of
             Inl e \<Rightarrow> Inl (storage_error e)
           | Inr cart \<Rightarrow> Inr cart))"

text \<open>The requests that fail the validation of the \<open>addItem\<close> handler: \<open>user_id\<close> missing or
  blank, no item payload, \<open>product_id\<close> missing or blank, or the quantity rejected.\<close>

definition invalid_addItem :: "AddItemRequest \<Rightarrow> bool" where
  "invalid_addItem request =
     (required (user_id request) = None \<or>
      (case item request of
         None \<Rightarrow> True
       | Some payload \<Rightarrow>
           required (product_id payload) = None \<or>
           accepted_quantity (quantity_of payload) = None))"


text \<open>A client whose server holds no key, answers \<open>PONG\<close> and rejects no command.\<close>

definition fresh_client :: RedisClient where
  "fresh_client = \<lparr>keyspace = Map.empty, faults = [], ping_reply = ''PONG''\<rparr>"

text \<open>The invariants of the two backends: no stored cart has two entries for a product.\<close>

definition memory_invariant :: "MemoryStore \<Rightarrow> bool" where
  "memory_invariant carts = (\<forall>u cart. carts u = Some cart \<longrightarrow> unique_products cart)"

definition redis_invariant :: "(string \<rightharpoonup> Buffer) \<Rightarrow> bool" where
  "redis_invariant ks =
     (\<forall>k b. ks k = Some b \<longrightarrow> (\<exists>cart. b = Cart_encode cart \<and> unique_products cart))"

section \<open>Merge on write: lemmas\<close>

lemma find_productId_None:
  "find (\<lambda>item. productId item = p) its = None \<longleftrightarrow> p \<notin> productId ` set its"
  by (auto simp: find_None_iff)

lemma merge_item_new:
  "p \<notin> productId ` set its \<Longrightarrow> merge_item its p q = its @ [\<lparr>productId = p, quantity = q\<rparr>]"
  using find_productId_None [of p its] by (simp add: merge_item_def)

lemma merge_item_existing:
  "p \<in> productId ` set its \<Longrightarrow> merge_item its p q = increment_first p q its"
  using find_productId_None [of p its] by (auto simp: merge_item_def split: option.splits)

lemma productId_increment_first:
  "map productId (increment_first p q its) = map productId its"
  by (induction its) auto

lemma length_increment_first: "length (increment_first p q its) = length its"
  by (induction its) auto

lemma productId_merge_item:
  "map productId (merge_item its p q) =
     (if p \<in> productId ` set its then map productId its else map productId its @ [p])"
  by (simp add: merge_item_new merge_item_existing productId_increment_first)

lemma distinct_merge_item:
  "distinct (map productId its) \<Longrightarrow> distinct (map productId (merge_item its p q))"
  by (simp add: productId_merge_item)

section \<open>The codec: decoding inverts encoding\<close>

lemma unat_byte: "n < 256 \<Longrightarrow> unat (of_nat n :: byte) = n"
  by (simp add: unat_of_nat)

lemma get_put_varint: "get_varint (put_varint n @ rest) = Some (n, rest)"
proof (induction n rule: put_varint.induct)
  case (1 n)
  show ?case
  proof (cases "n < 128")
    case True
    then show ?thesis
      by (subst put_varint.simps) (simp add: unat_byte)
  next
    case False
    have "128 + n mod 128 < 256" by simp
    then have u: "unat (of_nat (128 + n mod 128) :: byte) = 128 + n mod 128"
      by (rule unat_byte)
    from False 1 have "get_varint (put_varint (n div 128) @ rest) = Some (n div 128, rest)"
      by simp
    with False u show ?thesis
      by (subst put_varint.simps) simp
  qed
qed

lemma string_of_bytes_of_string: "string_of_bytes (bytes_of_string s) = s"
  by (induction s) (simp_all add: string_of_bytes_def bytes_of_string_def unat_of_nat)

lemma length_bytes_of_string: "length (bytes_of_string s) = length s"
  by (simp add: bytes_of_string_def)

lemma key2: "Suc (Suc (8 * k)) mod 8 = 2" "Suc (Suc (8 * k)) div 8 = k"
  by presburger+

lemma get_field_put_string:
  "get_field (put_string k s @ rest) = Some ((k, LengthDelimited (bytes_of_string s)), rest)"
  by (simp add: get_field_def put_string_def key_of_def get_put_varint take_bytes_def
                length_bytes_of_string key2)

lemma get_field_put_message:
  "get_field (put_message k body @ rest) = Some ((k, LengthDelimited body), rest)"
  by (simp add: get_field_def put_message_def key_of_def get_put_varint take_bytes_def key2)

lemma get_field_put_int32:
  "get_field (put_int32 k v @ rest) = Some ((k, Varint (int32_wire v)), rest)"
  by (simp add: get_field_def put_int32_def key_of_def get_put_varint)

lemma parse_fields_Nil: "parse_fields [] = Some []"
  by (subst parse_fields.simps) simp

lemma parse_fields_step:
  "get_field bs = Some (f, rest) \<Longrightarrow>
   parse_fields bs = (case parse_fields rest of None \<Rightarrow> None | Some fs \<Rightarrow> Some (f # fs))"
  by (subst parse_fields.simps) (auto simp: get_field_def)

lemma wrap_aux:
  assumes "0 \<le> (w::int)" "w < 2 ^ 32"
  shows "(w + 2 ^ 31) mod 2 ^ 32 = (if w < 2 ^ 31 then w + 2 ^ 31 else w + 2 ^ 31 - 2 ^ 32)"
proof (cases "w < 2 ^ 31")
  case True
  with assms show ?thesis by simp
next
  case False
  define a where "a = w + 2 ^ 31 - 2 ^ 32"
  have a: "0 \<le> a" "a < 2 ^ 32"
    using False assms by (simp_all add: a_def)
  have "w + 2 ^ 31 = a + 2 ^ 32"
    by (simp add: a_def)
  then have "(w + 2 ^ 31) mod 2 ^ 32 = (a + 2 ^ 32) mod 2 ^ 32"
    by (rule arg_cong)
  also have "\<dots> = a mod 2 ^ 32"
    by (rule mod_add_self2)
  also have "\<dots> = a"
    using a by (rule mod_pos_pos_trivial)
  finally show ?thesis
    using False by (simp add: a_def)
qed

lemma int32_of_varint_wire: "int32_of_varint (int32_wire v) = wrap32 v"
proof -
  have m: "int (int32_wire v) mod 2 ^ 32 = v mod 2 ^ 32"
  proof (cases "v < 0")
    case True
    have "(v mod 2 ^ 64) mod 2 ^ 32 = v mod 2 ^ 32"
      by (rule mod_mod_cancel) simp
    with True show ?thesis by (simp add: int32_wire_def)
  next
    case False
    then show ?thesis by (simp add: int32_wire_def)
  qed
  define w where "w = v mod 2 ^ 32"
  have w: "0 \<le> w" "w < 2 ^ 32" by (simp_all add: w_def)
  have e: "(v + 2 ^ 31) mod 2 ^ 32 = (w + 2 ^ 31) mod 2 ^ 32"
    by (simp add: w_def mod_add_left_eq)
  show ?thesis
    unfolding int32_of_varint_def wrap32_def Let_def m e w_def [symmetric] wrap_aux [OF w]
    by simp
qed

lemma wrap32_id: "- (2 ^ 31) \<le> v \<Longrightarrow> v < 2 ^ 31 \<Longrightarrow> wrap32 v = v"
  by (simp add: wrap32_def)

lemma parse_fields_put_string:
  "parse_fields (put_string k s @ rest) =
     (case parse_fields rest of
        None \<Rightarrow> None
      | Some fs \<Rightarrow> Some ((k, LengthDelimited (bytes_of_string s)) # fs))"
  by (rule parse_fields_step) (rule get_field_put_string)

lemma parse_fields_put_message:
  "parse_fields (put_message k body @ rest) =
     (case parse_fields rest of
        None \<Rightarrow> None
      | Some fs \<Rightarrow> Some ((k, LengthDelimited body) # fs))"
  by (rule parse_fields_step) (rule get_field_put_message)

lemma parse_fields_put_int32:
  "parse_fields (put_int32 k v @ rest) =
     (case parse_fields rest of
        None \<Rightarrow> None
      | Some fs \<Rightarrow> Some ((k, Varint (int32_wire v)) # fs))"
  by (rule parse_fields_step) (rule get_field_put_int32)

lemma parse_fields_CartItem_encode:
  "parse_fields (CartItem_encode ci) =
     Some [(1, LengthDelimited (bytes_of_string (productId ci))),
           (2, Varint (int32_wire \<lfloor>quantity ci\<rfloor>))]"
  using parse_fields_put_int32 [of 2 "\<lfloor>quantity ci\<rfloor>" "[]"]
  by (simp add: CartItem_encode_def parse_fields_put_string parse_fields_Nil)

lemma parse_fields_items:
  "parse_fields (concat (map (\<lambda>item. put_message 2 (CartItem_encode item)) its)) =
     Some (map (\<lambda>item. (2, LengthDelimited (CartItem_encode item))) its)"
  by (induction its) (simp_all add: parse_fields_Nil parse_fields_put_message)

lemma parse_fields_Cart_encode:
  "parse_fields (Cart_encode cart) =
     Some ((1, LengthDelimited (bytes_of_string (userId cart))) #
           map (\<lambda>item. (2, LengthDelimited (CartItem_encode item))) (items cart))"
  by (simp add: Cart_encode_def parse_fields_put_string parse_fields_items)

lemma put_varint_nonempty: "put_varint n \<noteq> []"
  by (subst put_varint.simps) simp

lemma key_of_nonempty: "key_of k w \<noteq> []"
  by (simp add: key_of_def put_varint_nonempty)

lemma read_string_put:
  "read_string (put_varint (length s) @ bytes_of_string s @ rest) = Some (s, rest)"
  by (simp add: read_string_def get_put_varint length_bytes_of_string
                string_of_bytes_of_string)

lemma get_varint_key_of: "get_varint (key_of k w @ rest) = Some (8 * k + w, rest)"
  by (simp add: key_of_def get_put_varint)

lemma CartItem_decode_loop_0: "CartItem_decode_loop 0 bs m = Some (m, bs)"
  by (subst CartItem_decode_loop.simps) simp

lemma Cart_decode_loop_0: "Cart_decode_loop 0 bs m = Some (m, bs)"
  by (subst Cart_decode_loop.simps) simp

lemma CartItem_decode_loop_string:
  "CartItem_decode_loop (length (put_string 1 s) + l) (put_string 1 s @ bs) m =
     CartItem_decode_loop l bs (m\<lparr>productId := s\<rparr>)"
proof -
  have k: "get_varint (put_string 1 s @ bs) =
             Some (10, put_varint (length s) @ bytes_of_string s @ bs)"
    using get_varint_key_of [of 1 2] by (simp add: put_string_def)
  have f: "CartItem_field (10 div 8) (10 mod 8) (put_varint (length s) @ bytes_of_string s @ bs) m =
             Some (m\<lparr>productId := s\<rparr>, bs)"
    by (simp add: CartItem_field_def read_string_put)
  have n: "length (put_string 1 s) + l \<noteq> 0"
    by (simp add: put_string_def key_of_nonempty)
  show ?thesis
    by (subst CartItem_decode_loop.simps) (simp only: k f n option.case prod.case if_False, simp)
qed

lemma CartItem_decode_loop_int32:
  "CartItem_decode_loop (length (put_int32 2 v) + l) (put_int32 2 v @ bs) m =
     CartItem_decode_loop l bs (m\<lparr>quantity := of_int (wrap32 v)\<rparr>)"
proof -
  have k: "get_varint (put_int32 2 v @ bs) = Some (16, put_varint (int32_wire v) @ bs)"
    using get_varint_key_of [of 2 0] by (simp add: put_int32_def)
  have f: "CartItem_field (16 div 8) (16 mod 8) (put_varint (int32_wire v) @ bs) m =
             Some (m\<lparr>quantity := of_int (wrap32 v)\<rparr>, bs)"
    by (simp add: CartItem_field_def read_int32_def get_put_varint int32_of_varint_wire)
  have n: "length (put_int32 2 v) + l \<noteq> 0"
    by (simp add: put_int32_def key_of_nonempty)
  show ?thesis
    by (subst CartItem_decode_loop.simps) (simp only: k f n option.case prod.case if_False, simp)
qed

lemma CartItem_decode_encode:
  "CartItem_decode_loop (length (CartItem_encode ci)) (CartItem_encode ci @ rest)
     \<lparr>productId = [], quantity = 0\<rparr> = Some (wrap_item ci, rest)"
proof -
  have "CartItem_decode_loop (length (put_string 1 (productId ci)) +
            (length (put_int32 2 \<lfloor>quantity ci\<rfloor>) + 0))
          (put_string 1 (productId ci) @ put_int32 2 \<lfloor>quantity ci\<rfloor> @ rest)
          \<lparr>productId = [], quantity = 0\<rparr> = Some (wrap_item ci, rest)"
    by (simp only: CartItem_decode_loop_string CartItem_decode_loop_int32 CartItem_decode_loop_0)
       (simp add: wrap_item_def)
  then show ?thesis
    by (simp add: CartItem_encode_def)
qed

lemma Cart_decode_loop_string:
  "Cart_decode_loop (length (put_string 1 s) + l) (put_string 1 s @ bs) m =
     Cart_decode_loop l bs (m\<lparr>userId := s\<rparr>)"
proof -
  have k: "get_varint (put_string 1 s @ bs) =
             Some (10, put_varint (length s) @ bytes_of_string s @ bs)"
    using get_varint_key_of [of 1 2] by (simp add: put_string_def)
  have f: "Cart_field (10 div 8) (10 mod 8) (put_varint (length s) @ bytes_of_string s @ bs) m =
             Some (m\<lparr>userId := s\<rparr>, bs)"
    by (simp add: Cart_field_def read_string_put)
  have n: "length (put_string 1 s) + l \<noteq> 0"
    by (simp add: put_string_def key_of_nonempty)
  show ?thesis
    by (subst Cart_decode_loop.simps) (simp only: k f n option.case prod.case if_False, simp)
qed

lemma Cart_decode_loop_item:
  "Cart_decode_loop (length (put_message 2 (CartItem_encode ci)) + l)
       (put_message 2 (CartItem_encode ci) @ bs) m =
     Cart_decode_loop l bs (m\<lparr>items := items m @ [wrap_item ci]\<rparr>)"
proof -
  have k: "get_varint (put_message 2 (CartItem_encode ci) @ bs) =
             Some (18, put_varint (length (CartItem_encode ci)) @ CartItem_encode ci @ bs)"
    using get_varint_key_of [of 2 2] by (simp add: put_message_def)
  have f: "Cart_field (18 div 8) (18 mod 8)
             (put_varint (length (CartItem_encode ci)) @ CartItem_encode ci @ bs) m =
             Some (m\<lparr>items := items m @ [wrap_item ci]\<rparr>, bs)"
    by (simp add: Cart_field_def get_put_varint CartItem_decode_encode)
  have n: "length (put_message 2 (CartItem_encode ci)) + l \<noteq> 0"
    by (simp add: put_message_def key_of_nonempty)
  show ?thesis
    by (subst Cart_decode_loop.simps) (simp only: k f n option.case prod.case if_False, simp)
qed

lemma Cart_decode_loop_items:
  "Cart_decode_loop
       (length (concat (map (\<lambda>item. put_message 2 (CartItem_encode item)) its)))
       (concat (map (\<lambda>item. put_message 2 (CartItem_encode item)) its)) m =
     Some (m\<lparr>items := items m @ map wrap_item its\<rparr>, [])"
proof (induction its arbitrary: m)
  case Nil
  show ?case
    by (simp add: Cart_decode_loop_0)
next
  case (Cons ci its)
  have "Cart_decode_loop
          (length (put_message 2 (CartItem_encode ci)) +
             length (concat (map (\<lambda>item. put_message 2 (CartItem_encode item)) its)))
          (put_message 2 (CartItem_encode ci) @
             concat (map (\<lambda>item. put_message 2 (CartItem_encode item)) its)) m =
        Some (m\<lparr>items := items m @ map wrap_item (ci # its)\<rparr>, [])"
    by (simp only: Cart_decode_loop_item Cons.IH) simp
  then show ?case
    by simp
qed

lemma Cart_decode_encode:
  "Cart_decode (Cart_encode cart) =
     Some \<lparr>userId = userId cart, items = map wrap_item (items cart)\<rparr>"
proof -
  let ?its = "concat (map (\<lambda>item. put_message 2 (CartItem_encode item)) (items cart))"
  have "Cart_decode_loop (length (put_string 1 (userId cart)) + length ?its)
          (put_string 1 (userId cart) @ ?its) \<lparr>userId = [], items = []\<rparr> =
        Some (\<lparr>userId = userId cart, items = map wrap_item (items cart)\<rparr>, [])"
    by (simp only: Cart_decode_loop_string Cart_decode_loop_items) simp
  then show ?thesis
    by (simp add: Cart_decode_def Cart_encode_def)
qed

lemma deserializeCart_encode:
  "deserializeCart (Cart_encode cart) =
     Inr \<lparr>userId = userId cart, items = map wrap_item (items cart)\<rparr>"
  by (simp add: deserializeCart_def Cart_decode_encode wrap_item_def comp_def)

section \<open>RedisStore: effect of the operations on the key space\<close>

lemma keyspace_next_outcome: "keyspace (snd (next_outcome c)) = keyspace c"
  by (simp add: next_outcome_def split: list.splits)

lemma ping_reply_next_outcome: "ping_reply (snd (next_outcome c)) = ping_reply c"
  by (simp add: next_outcome_def split: list.splits)

lemma next_outcome_no_faults: "faults c = [] \<Longrightarrow> next_outcome c = (None, c)"
  by (simp add: next_outcome_def)

lemma getCartKey_inject: "getCartKey u = getCartKey v \<longleftrightarrow> u = v"
  by (simp add: getCartKey_def)

lemma RedisStore_getCart_cases:
  "RedisStore_getCart c u =
     (case fst (next_outcome c) of
        Some e \<Rightarrow> (Inl (storage_error e), snd (next_outcome c))
      | None \<Rightarrow> (stored_cart (keyspace c) u, snd (next_outcome c)))"
  using keyspace_next_outcome [of c]
  by (auto simp: RedisStore_getCart_def client_getBuffer_def stored_cart_def
           split: prod.splits option.splits sum.splits)

lemma keyspace_RedisStore_getCart: "keyspace (snd (RedisStore_getCart c u)) = keyspace c"
  by (simp add: RedisStore_getCart_cases keyspace_next_outcome split: option.splits)

lemma ping_reply_RedisStore_getCart: "ping_reply (snd (RedisStore_getCart c u)) = ping_reply c"
  by (simp add: RedisStore_getCart_cases ping_reply_next_outcome split: option.splits)

lemma RedisStore_getCart_no_faults:
  "faults c = [] \<Longrightarrow> RedisStore_getCart c u = (stored_cart (keyspace c) u, c)"
  by (simp add: RedisStore_getCart_cases next_outcome_no_faults)

lemma proto_items: "map (\<lambda>ci::CartItem. \<lparr>productId = productId ci, quantity = quantity ci\<rparr>) its = its"
  by (induction its) simp_all

lemma proto_cart: "\<lparr>userId = userId cart, items = items cart\<rparr> = (cart::Cart)"
  by (cases cart) simp

lemma serializeCart_cases:
  "serializeCart cart =
     (if list_all (\<lambda>ci. is_integer (quantity ci)) (items cart) then Inr (Cart_encode cart)
      else Inl (ErrorObj ''Invalid cart message: items.quantity: integer expected''))"
  by (simp add: serializeCart_def Cart_verify_def proto_items proto_cart)

lemma client_set_cases:
  "client_set c key v =
     (case fst (next_outcome c) of
        Some e \<Rightarrow> (Inl e, snd (next_outcome c))
      | None \<Rightarrow> (Inr (), (snd (next_outcome c))\<lparr>keyspace := (keyspace c)(key \<mapsto> v)\<rparr>))"
  using keyspace_next_outcome [of c]
  by (auto simp: client_set_def split: prod.splits option.splits)

text \<open>The effect of addItem on the key space, whatever the fault schedule.\<close>

lemma keyspace_RedisStore_addItem:
  "keyspace (snd (RedisStore_addItem c u p q)) =
     (case (fst (RedisStore_addItem c u p q), stored_cart (keyspace c) u) of
        (Inr _, Inr cart) \<Rightarrow>
          (keyspace c)(getCartKey u \<mapsto> Cart_encode (cart\<lparr>items := merge_item (items cart) p q\<rparr>))
      | _ \<Rightarrow> keyspace c)"
proof (cases "fst (next_outcome c)")
  case (Some e)
  then show ?thesis
    by (simp add: RedisStore_addItem_def RedisStore_getCart_cases keyspace_next_outcome
             split: sum.splits)
next
  case None
  define c1 where "c1 = snd (next_outcome c)"
  have k1: "keyspace c1 = keyspace c"
    by (simp add: c1_def keyspace_next_outcome)
  have g: "RedisStore_getCart c u = (stored_cart (keyspace c) u, c1)"
    using None by (simp add: RedisStore_getCart_cases c1_def)
  show ?thesis
  proof (cases "stored_cart (keyspace c) u")
    case (Inl e)
    then show ?thesis
      by (simp add: RedisStore_addItem_def g k1)
  next
    case (Inr cart)
    show ?thesis
    proof (cases "list_all (\<lambda>ci. is_integer (quantity ci)) (merge_item (items cart) p q)")
      case False
      then show ?thesis
        by (simp add: RedisStore_addItem_def g Inr serializeCart_cases k1)
    next
      case True
      then show ?thesis
        using k1 keyspace_next_outcome [of c1]
        by (simp add: RedisStore_addItem_def g Inr serializeCart_cases client_set_cases
                 split: option.splits)
    qed
  qed
qed

lemma RedisStore_addItem_no_faults:
  assumes "faults c = []" "stored_cart (keyspace c) u = Inr cart"
    "list_all (\<lambda>ci. is_integer (quantity ci)) (merge_item (items cart) p q)"
  shows "RedisStore_addItem c u p q =
     (Inr (), c\<lparr>keyspace := (keyspace c)(getCartKey u \<mapsto>
                   Cart_encode (cart\<lparr>items := merge_item (items cart) p q\<rparr>))\<rparr>)"
  using assms
  by (simp add: RedisStore_addItem_def RedisStore_getCart_no_faults serializeCart_cases
                client_set_cases next_outcome_no_faults)

lemma stored_cart_encode:
  "ks (getCartKey u) = Some (Cart_encode cart) \<Longrightarrow>
   stored_cart ks u = Inr \<lparr>userId = userId cart, items = map wrap_item (items cart)\<rparr>"
  by (simp add: stored_cart_def deserializeCart_encode)

lemma RedisStore_emptyCart_cases:
  "RedisStore_emptyCart c u =
     (case fst (next_outcome c) of
        Some e \<Rightarrow> (Inl (storage_error e), snd (next_outcome c))
      | None \<Rightarrow>
          (Inr (), (snd (next_outcome c))\<lparr>keyspace :=
             (keyspace c)(getCartKey u \<mapsto> Cart_encode \<lparr>userId = u, items = []\<rparr>)\<rparr>))"
  by (simp add: RedisStore_emptyCart_def serializeCart_cases client_set_cases split: option.splits)

section \<open>Decoded quantities are 32-bit integers\<close>

lemma int32_of_varint_range:
  "- (2 ^ 31) \<le> int32_of_varint n \<and> int32_of_varint n < 2 ^ 31"
proof -
  define w where "w = int n mod 2 ^ 32"
  have "0 \<le> w" "w < 2 ^ 32"
    by (simp_all add: w_def)
  then show ?thesis
    unfolding int32_of_varint_def Let_def w_def [symmetric] by simp
qed

lemma int32_quantity_of_int:
  "- (2 ^ 31) \<le> v \<Longrightarrow> v < 2 ^ 31 \<Longrightarrow> int32_quantity (of_int v)"
proof -
  assume a: "- (2 ^ 31) \<le> v" "v < 2 ^ 31"
  have "(of_int (- (2 ^ 31)) :: real) \<le> of_int v"
    using a(1) by (simp only: of_int_le_iff)
  moreover have "(of_int v :: real) < of_int (2 ^ 31)"
    using a(2) by (simp only: of_int_less_iff)
  ultimately show ?thesis
    by (simp add: int32_quantity_def is_integer_def)
qed

lemma int32_quantity_decoded: "int32_quantity (of_int (int32_of_varint n))"
  using int32_of_varint_range [of n] by (simp add: int32_quantity_of_int)

lemma int32_quantity_zero: "int32_quantity 0"
  by (simp add: int32_quantity_def is_integer_def)

lemma CartItem_field_int32:
  "CartItem_field f w r m = Some (m', r') \<Longrightarrow> int32_quantity (quantity m) \<Longrightarrow>
   int32_quantity (quantity m')"
  by (auto simp: CartItem_field_def read_int32_def int32_quantity_decoded
           split: if_splits option.splits)

lemma CartItem_decode_loop_int32_quantity:
  "CartItem_decode_loop l bs m = Some (m', r) \<Longrightarrow> int32_quantity (quantity m) \<Longrightarrow>
   int32_quantity (quantity m')"
proof (induction l bs m rule: CartItem_decode_loop.induct)
  case (1 l bs m)
  show ?case
  proof (cases "l = 0")
    case True
    with "1.prems" show ?thesis
      by (subst (asm) CartItem_decode_loop.simps) simp
  next
    case False
    with "1.prems"(1) obtain t r0 m1 r1 where
      k: "get_varint bs = Some (t, r0)"
      and f: "CartItem_field (t div 8) (t mod 8) r0 m = Some (m1, r1)"
      and g: "CartItem_decode_loop (l - (length bs - length r1)) r1 m1 = Some (m', r)"
      by (subst (asm) CartItem_decode_loop.simps) (auto split: option.splits)
    from CartItem_field_int32 [OF f "1.prems"(2)]
    have "int32_quantity (quantity m1)" .
    with "1.IH" [OF False k refl f refl] g show ?thesis
      by simp
  qed
qed

lemma Cart_field_int32:
  "Cart_field f w r m = Some (m', r') \<Longrightarrow>
   list_all (\<lambda>ci. int32_quantity (quantity ci)) (items m) \<Longrightarrow>
   list_all (\<lambda>ci. int32_quantity (quantity ci)) (items m')"
  by (auto simp: Cart_field_def int32_quantity_zero split: if_splits option.splits
           dest!: CartItem_decode_loop_int32_quantity)

lemma Cart_decode_loop_int32:
  "Cart_decode_loop l bs m = Some (m', r) \<Longrightarrow>
   list_all (\<lambda>ci. int32_quantity (quantity ci)) (items m) \<Longrightarrow>
   list_all (\<lambda>ci. int32_quantity (quantity ci)) (items m')"
proof (induction l bs m rule: Cart_decode_loop.induct)
  case (1 l bs m)
  show ?case
  proof (cases "l = 0")
    case True
    with "1.prems" show ?thesis
      by (subst (asm) Cart_decode_loop.simps) simp
  next
    case False
    with "1.prems"(1) obtain t r0 m1 r1 where
      k: "get_varint bs = Some (t, r0)"
      and f: "Cart_field (t div 8) (t mod 8) r0 m = Some (m1, r1)"
      and g: "Cart_decode_loop (l - (length bs - length r1)) r1 m1 = Some (m', r)"
      by (subst (asm) Cart_decode_loop.simps) (auto split: option.splits)
    from Cart_field_int32 [OF f "1.prems"(2)]
    have "list_all (\<lambda>ci. int32_quantity (quantity ci)) (items m1)" .
    with "1.IH" [OF False k refl f refl] g show ?thesis
      by simp
  qed
qed

lemma Cart_decode_int32:
  "Cart_decode b = Some m \<Longrightarrow> list_all (\<lambda>ci. int32_quantity (quantity ci)) (items m)"
  by (auto simp: Cart_decode_def split: option.splits dest: Cart_decode_loop_int32)

lemma deserializeCart_int32:
  "deserializeCart b = Inr cart \<Longrightarrow> list_all (\<lambda>ci. int32_quantity (quantity ci)) (items cart)"
  by (auto simp: deserializeCart_def list_all_iff split: option.splits
           dest!: Cart_decode_int32)

lemma stored_cart_int32:
  "stored_cart ks u = Inr cart \<Longrightarrow> list_all (\<lambda>ci. int32_quantity (quantity ci)) (items cart)"
  by (auto simp: stored_cart_def split: option.splits sum.splits dest: deserializeCart_int32)

lemma wrap_item_int32: "int32_quantity (quantity ci) \<Longrightarrow> wrap_item ci = (ci::CartItem)"
proof -
  assume a: "int32_quantity (quantity ci)"
  then have i: "of_int \<lfloor>quantity ci\<rfloor> = quantity ci"
    by (simp add: int32_quantity_def is_integer_def)
  from a have "- (2 ^ 31) \<le> quantity ci" "quantity ci < 2 ^ 31"
    by (simp_all add: int32_quantity_def)
  then have "- (2 ^ 31) \<le> \<lfloor>quantity ci\<rfloor>" "\<lfloor>quantity ci\<rfloor> < 2 ^ 31"
    by (simp_all add: le_floor_iff floor_less_iff)
  then have "wrap32 \<lfloor>quantity ci\<rfloor> = \<lfloor>quantity ci\<rfloor>"
    by (rule wrap32_id)
  with i show ?thesis
    by (cases ci) (simp add: wrap_item_def)
qed

lemma wrap_items_int32:
  "list_all (\<lambda>ci. int32_quantity (quantity ci)) its \<Longrightarrow> map wrap_item its = its"
  by (induction its) (simp_all add: wrap_item_int32)

lemma productId_wrap_item: "productId (wrap_item ci) = productId ci"
  by (simp add: wrap_item_def)

lemma int32_quantity_integer: "int32_quantity x \<Longrightarrow> is_integer x"
  by (simp add: int32_quantity_def)

section \<open>Sums of integer quantities are exact\<close>

lemma round_half_even_of_int: "round_half_even (of_int j) = j"
  by (simp add: round_half_even_def)

lemma round_double_multiple:
  assumes "double_exponent x = e" "x = 2 powr of_int (e - 52) * of_int j"
  shows "round_double x = x"
proof (cases "x = 0")
  case True
  then show ?thesis by (simp add: round_double_def)
next
  case False
  let ?ulp = "2 powr of_int (e - 52) :: real"
  have "?ulp \<noteq> 0" by simp
  with assms(2) have "x / ?ulp = of_int j"
    by (metis nonzero_mult_div_cancel_left)
  with assms False show ?thesis
    by (simp add: round_double_def Let_def round_half_even_of_int)
qed

lemma double_exponent_integer:
  assumes "z \<noteq> 0" "\<bar>z\<bar> \<le> 2 ^ 53"
  shows "0 \<le> double_exponent (of_int z)" "double_exponent (of_int z) \<le> 53"
    "double_exponent (of_int z) = 53 \<Longrightarrow> \<bar>z\<bar> = 2 ^ 53"
proof -
  let ?x = "\<bar>of_int z\<bar> :: real"
  have one: "1 \<le> ?x"
    using assms(1) by (simp flip: of_int_abs) 
  have le: "?x \<le> 2 ^ 53"
    using assms(2) by (simp flip: of_int_abs)
  have l0: "0 \<le> log 2 ?x"
    using one by simp
  have "?x \<le> 2 powr 53"
    using le by (simp add: powr_numeral)
  then have l53: "log 2 ?x \<le> 53"
    using one by (simp add: log_le_iff)
  from l0 have f0: "0 \<le> \<lfloor>log 2 ?x\<rfloor>"
    by simp
  from l53 have f53: "\<lfloor>log 2 ?x\<rfloor> \<le> 53"
    by (simp add: floor_le_iff)
  from f0 show "0 \<le> double_exponent (of_int z)"
    by (simp add: double_exponent_def)
  from f53 show "double_exponent (of_int z) \<le> 53"
    by (simp add: double_exponent_def)
  show "\<bar>z\<bar> = 2 ^ 53" if "double_exponent (of_int z) = 53"
  proof -
    from that f0 have "\<lfloor>log 2 ?x\<rfloor> = 53"
      by (simp add: double_exponent_def max_def split: if_splits)
    then have "53 \<le> log 2 ?x"
      by (metis of_int_floor_le of_int_numeral)
    then have "2 powr 53 \<le> ?x"
      using one by (simp add: le_log_iff)
    then have "(2::real) ^ 53 \<le> ?x"
      by (simp add: powr_numeral)
    with le have "?x = 2 ^ 53"
      by simp
    then have "(of_int \<bar>z\<bar> :: real) = of_int (2 ^ 53)"
      by simp
    then show ?thesis
      by (simp only: of_int_eq_iff)
  qed
qed

lemma round_double_of_int:
  assumes "\<bar>z\<bar> \<le> 2 ^ 53"
  shows "round_double (of_int z) = of_int z"
proof (cases "z = 0")
  case True
  then show ?thesis by (simp add: round_double_def)
next
  case False
  define e where "e = double_exponent (of_int z)"
  have e: "double_exponent (of_int z) = e"
    by (simp add: e_def)
  note ex = double_exponent_integer [OF False assms, folded e_def]
  show ?thesis
  proof (cases "e = 53")
    case True
    with ex(3) have z: "\<bar>z\<bar> = 2 ^ 53"
      by simp
    then have "z = 2 ^ 53 \<or> z = - (2 ^ 53)"
      by (cases "0 \<le> z") simp_all
    then have "z = 2 * (z div 2)"
      by (elim disjE) simp_all
    then have "(of_int z :: real) = 2 * of_int (z div 2)"
      by (metis of_int_mult of_int_numeral)
    moreover have "(2::real) powr of_int (e - 52) = 2"
      using True by simp
    ultimately have "(of_int z :: real) = 2 powr of_int (e - 52) * of_int (z div 2)"
      by simp
    with e show ?thesis
      by (rule round_double_multiple)
  next
    case False
    with ex(2) have k: "e - 52 \<le> 0"
      by simp
    define n where "n = nat (52 - e)"
    have "(2::real) powr of_int (e - 52) = 2 powr (- real n)"
      using k by (simp add: n_def)
    then have p: "(2::real) powr of_int (e - 52) = inverse (2 ^ n)"
      by (simp add: powr_minus powr_realpow)
    have "(of_int z :: real) = inverse (2 ^ n) * of_int (z * 2 ^ n)"
      by simp
    with p have "(of_int z :: real) = 2 powr of_int (e - 52) * of_int (z * 2 ^ n)"
      by simp
    with e show ?thesis
      by (rule round_double_multiple)
  qed
qed

lemma js_add_integer:
  assumes "is_integer a" "is_integer b" "\<bar>a + b\<bar> \<le> 2 ^ 53"
  shows "js_add a b = a + b"
proof -
  from assms(1,2) obtain i j where ij: "a = of_int i" "b = of_int j"
    by (metis is_integer_def)
  then have s: "a + b = of_int (i + j)"
    by simp
  with assms(3) have "\<bar>of_int (i + j) :: real\<bar> \<le> 2 ^ 53"
    by simp
  then have "(of_int \<bar>i + j\<bar> :: real) \<le> of_int (2 ^ 53)"
    by simp
  then have "\<bar>i + j\<bar> \<le> 2 ^ 53"
    by (simp only: of_int_le_iff)
  then have "round_double (of_int (i + j)) = of_int (i + j)"
    by (rule round_double_of_int)
  with s show ?thesis
    by (simp add: js_add_def)
qed

lemma double_exponent_53: "double_exponent 9007199254740993 = 53"
proof -
  have "(2::real) powr 53 \<le> 9007199254740993"
    by (simp add: powr_numeral)
  then have l: "53 \<le> log 2 9007199254740993"
    by (simp add: le_log_iff)
  have "(9007199254740993::real) < 2 powr 54"
    by (simp add: powr_numeral)
  then have u: "log 2 9007199254740993 < 54"
    by (simp add: log_less_iff)
  from l u have "\<lfloor>log 2 9007199254740993 :: real\<rfloor> = 53"
    by (simp add: floor_eq_iff)
  then show ?thesis
    by (simp add: double_exponent_def)
qed

lemma js_add_2_53: "js_add 9007199254740992 1 = 9007199254740992"
  by (simp add: js_add_def round_double_def double_exponent_53 round_half_even_def)

section \<open>Two additions of the same product\<close>

lemma increment_first_append_new:
  "p \<notin> productId ` set its \<Longrightarrow>
   increment_first p q (its @ [\<lparr>productId = p, quantity = q1\<rparr>]) =
     its @ [\<lparr>productId = p, quantity = js_add q1 q\<rparr>]"
  by (induction its) auto

lemma merge_item_twice:
  assumes "p \<notin> productId ` set its"
  shows "merge_item (merge_item its p q1) p q2 =
           its @ [\<lparr>productId = p, quantity = js_add q1 q2\<rparr>]"
proof -
  have "merge_item its p q1 = its @ [\<lparr>productId = p, quantity = q1\<rparr>]"
    using assms by (rule merge_item_new)
  moreover have "p \<in> productId ` set (its @ [\<lparr>productId = p, quantity = q1\<rparr>])"
    by simp
  ultimately show ?thesis
    using assms by (simp add: merge_item_existing increment_first_append_new)
qed

lemma entries_for_append_new:
  "p \<notin> productId ` set (items cart) \<Longrightarrow>
   entries_for p (cart\<lparr>items := items cart @ [\<lparr>productId = p, quantity = q\<rparr>]\<rparr>) =
     [\<lparr>productId = p, quantity = q\<rparr>]"
  by (auto simp: entries_for_def filter_empty_conv)

lemma memory_two_adds:
  assumes "fst (getCart MemoryStore carts u) = Inr cart0"
    and "p \<notin> productId ` set (items cart0)"
  shows "fst (getCart MemoryStore (run MemoryStore [AddItem u p q1, AddItem u p q2] carts) u) =
           Inr (cart0\<lparr>items := items cart0 @ [\<lparr>productId = p, quantity = js_add q1 q2\<rparr>]\<rparr>)"
proof -
  have c0: "(case carts u of Some c \<Rightarrow> c | None \<Rightarrow> \<lparr>userId = u, items = []\<rparr>) = cart0"
    using assms(1) by (simp add: MemoryStore_def MemoryStore_getCart_def split: option.splits)
  show ?thesis
    using assms(2)
    by (simp add: run_def apply_operation_def MemoryStore_def MemoryStore_addItem_def
                  MemoryStore_getCart_def c0 Let_def merge_item_twice)
qed

lemma is_integer_add: "is_integer a \<Longrightarrow> is_integer b \<Longrightarrow> is_integer (a + b)"
  by (simp add: is_integer_def) (metis of_int_add floor_of_int)

lemma redis_two_adds_wrapped:
  assumes f: "faults c = []"
    and g: "fst (getCart RedisStore c u) = Inr cart0"
    and p: "p \<notin> productId ` set (items cart0)"
    and q: "int32_quantity q1" "is_integer q2" "\<bar>q1 + q2\<bar> \<le> 2 ^ 53"
  shows "fst (getCart RedisStore (run RedisStore [AddItem u p q1, AddItem u p q2] c) u) =
           Inr (cart0\<lparr>items := items cart0 @
                  [\<lparr>productId = p, quantity = of_int (wrap32 \<lfloor>q1 + q2\<rfloor>)\<rparr>]\<rparr>)"
proof -
  let ?P = "\<lambda>ci. int32_quantity (quantity ci)"
  have s0: "stored_cart (keyspace c) u = Inr cart0"
    using f g by (simp add: RedisStore_def RedisStore_getCart_no_faults)
  then have i0: "list_all ?P (items cart0)"
    by (rule stored_cart_int32)
  have q12: "is_integer (q1 + q2)"
    using q by (simp add: is_integer_add int32_quantity_integer)
  define cart1 where "cart1 = cart0\<lparr>items := items cart0 @ [\<lparr>productId = p, quantity = q1\<rparr>]\<rparr>"
  define cart2 where "cart2 = cart0\<lparr>items := items cart0 @ [\<lparr>productId = p, quantity = q1 + q2\<rparr>]\<rparr>"
  have mi1: "merge_item (items cart0) p q1 = items cart1"
    using p by (simp add: cart1_def merge_item_new)
  have i1: "list_all ?P (items cart1)"
    using i0 q(1) by (simp add: cart1_def)
  have int_of: "\<And>its. list_all ?P its \<Longrightarrow> list_all (\<lambda>ci. is_integer (quantity ci)) its"
    by (simp add: list_all_iff int32_quantity_integer)
  have i2: "list_all (\<lambda>ci. is_integer (quantity ci)) (items cart2)"
    using int_of [OF i0] q12 by (simp add: cart2_def)
  define c1 where "c1 = c\<lparr>keyspace := (keyspace c)(getCartKey u \<mapsto> Cart_encode cart1)\<rparr>"
  have a1: "RedisStore_addItem c u p q1 = (Inr (), c1)"
    using RedisStore_addItem_no_faults [OF f s0, of p q1] int_of [OF i1]
    by (simp add: mi1 c1_def) (simp add: cart1_def)
  have f1: "faults c1 = []"
    using f by (simp add: c1_def)
  have "stored_cart (keyspace c1) u = Inr \<lparr>userId = userId cart1, items = map wrap_item (items cart1)\<rparr>"
    by (rule stored_cart_encode) (simp add: c1_def)
  then have s1: "stored_cart (keyspace c1) u = Inr cart1"
    by (simp add: wrap_items_int32 [OF i1] proto_cart)
  have "js_add q1 q2 = q1 + q2"
    using q by (simp add: js_add_integer int32_quantity_integer)
  with merge_item_twice [OF p, of q1 q2]
  have mi2: "merge_item (items cart1) p q2 = items cart2"
    by (simp add: cart1_def cart2_def merge_item_new p)
  define c2 where "c2 = c1\<lparr>keyspace := (keyspace c1)(getCartKey u \<mapsto> Cart_encode cart2)\<rparr>"
  have a2: "RedisStore_addItem c1 u p q2 = (Inr (), c2)"
    using RedisStore_addItem_no_faults [OF f1 s1, of p q2] i2
    by (simp add: mi2 c2_def) (simp add: cart1_def cart2_def)
  have f2: "faults c2 = []"
    using f1 by (simp add: c2_def)
  have "stored_cart (keyspace c2) u = Inr \<lparr>userId = userId cart2, items = map wrap_item (items cart2)\<rparr>"
    by (rule stored_cart_encode) (simp add: c2_def)
  then have s2: "stored_cart (keyspace c2) u =
      Inr (cart0\<lparr>items := items cart0 @ [\<lparr>productId = p, quantity = of_int (wrap32 \<lfloor>q1 + q2\<rfloor>)\<rparr>]\<rparr>)"
    using wrap_items_int32 [OF i0] by (cases cart0) (simp add: cart2_def wrap_item_def)
  have "run RedisStore [AddItem u p q1, AddItem u p q2] c = c2"
    by (simp add: run_def apply_operation_def RedisStore_def a1 a2)
  then show ?thesis
    using f2 s2 by (simp add: RedisStore_def RedisStore_getCart_no_faults)
qed

lemma redis_two_adds:
  assumes f: "faults c = []"
    and g: "fst (getCart RedisStore c u) = Inr cart0"
    and p: "p \<notin> productId ` set (items cart0)"
    and q: "is_integer q1" "is_integer q2" "0 < q1" "0 < q2" "q1 + q2 < 2 ^ 31"
  shows "fst (getCart RedisStore (run RedisStore [AddItem u p q1, AddItem u p q2] c) u) =
           Inr (cart0\<lparr>items := items cart0 @ [\<lparr>productId = p, quantity = q1 + q2\<rparr>]\<rparr>)"
proof -
  have q1: "int32_quantity q1"
    using q by (simp add: int32_quantity_def)
  have "int32_quantity (q1 + q2)"
    using q by (simp add: int32_quantity_def is_integer_add)
  then have "wrap_item \<lparr>productId = p, quantity = q1 + q2\<rparr> = \<lparr>productId = p, quantity = q1 + q2\<rparr>"
    by (simp add: wrap_item_int32)
  then have "of_int (wrap32 \<lfloor>q1 + q2\<rfloor>) = q1 + q2"
    by (simp add: wrap_item_def)
  moreover have "\<bar>q1 + q2\<bar> \<le> 2 ^ 53"
    using q by simp
  ultimately show ?thesis
    using redis_two_adds_wrapped [OF f g p q1 q(2)] by simp
qed

section \<open>Invariants of the reachable states\<close>

lemma run_induct:
  assumes "P s" and "\<And>operation s. P s \<Longrightarrow> P (apply_operation store operation s)"
  shows "P (run store operations s)"
  unfolding run_def using assms(1)
  by (induction operations arbitrary: s) (simp_all add: assms(2))

lemma memory_invariant_step:
  "memory_invariant carts \<Longrightarrow> memory_invariant (apply_operation MemoryStore operation carts)"
  by (cases operation)
     (auto simp: memory_invariant_def apply_operation_def MemoryStore_def MemoryStore_addItem_def
                 MemoryStore_getCart_def MemoryStore_emptyCart_def unique_products_def Let_def
                 distinct_merge_item
           split: option.splits)

lemma memory_invariant_run:
  "memory_invariant (run MemoryStore operations MemoryStore_init)"
proof (rule run_induct [where P = memory_invariant])
  show "memory_invariant MemoryStore_init"
    by (simp add: memory_invariant_def MemoryStore_init_def)
qed (rule memory_invariant_step)

lemma memory_unique:
  "fst (getCart MemoryStore (run MemoryStore operations MemoryStore_init) v) = Inr cart \<Longrightarrow>
   unique_products cart"
  using memory_invariant_run [of operations]
  by (auto simp: memory_invariant_def MemoryStore_def MemoryStore_getCart_def unique_products_def
           split: option.splits)

lemma unique_products_stored:
  assumes "redis_invariant ks" "stored_cart ks v = Inr cart"
  shows "unique_products cart"
proof (cases "ks (getCartKey v)")
  case None
  with assms(2) show ?thesis
    by (auto simp: stored_cart_def unique_products_def)
next
  case (Some b)
  with assms(1) obtain cart0 where b: "b = Cart_encode cart0" and u: "unique_products cart0"
    by (auto simp: redis_invariant_def)
  from Some b have "stored_cart ks v = Inr \<lparr>userId = userId cart0, items = map wrap_item (items cart0)\<rparr>"
    by (simp add: stored_cart_encode)
  with assms(2) u show ?thesis
    by (auto simp: unique_products_def comp_def productId_wrap_item)
qed

lemma redis_invariant_update:
  "redis_invariant ks \<Longrightarrow> unique_products cart \<Longrightarrow> redis_invariant (ks(k \<mapsto> Cart_encode cart))"
  by (auto simp: redis_invariant_def)

lemma redis_invariant_step:
  assumes "redis_invariant (keyspace c)"
  shows "redis_invariant (keyspace (apply_operation RedisStore operation c))"
proof (cases operation)
  case (AddItem u p q)
  have "redis_invariant (keyspace (snd (RedisStore_addItem c u p q)))"
  proof (cases "fst (RedisStore_addItem c u p q)")
    case (Inl e)
    with assms show ?thesis by (simp add: keyspace_RedisStore_addItem)
  next
    case (Inr x)
    show ?thesis
    proof (cases "stored_cart (keyspace c) u")
      case (Inl e)
      with Inr assms show ?thesis by (simp add: keyspace_RedisStore_addItem)
    next
      case cart: (Inr cart)
      then have "unique_products cart"
        using assms by (simp add: unique_products_stored)
      then have "unique_products (cart\<lparr>items := merge_item (items cart) p q\<rparr>)"
        by (simp add: unique_products_def distinct_merge_item)
      with Inr cart assms show ?thesis
        by (simp add: keyspace_RedisStore_addItem redis_invariant_update)
    qed
  qed
  with AddItem show ?thesis
    by (simp add: apply_operation_def RedisStore_def)
next
  case (GetCart u)
  with assms show ?thesis
    by (simp add: apply_operation_def RedisStore_def keyspace_RedisStore_getCart)
next
  case (EmptyCart u)
  have "unique_products \<lparr>userId = u, items = []\<rparr>"
    by (simp add: unique_products_def)
  with EmptyCart assms show ?thesis
    by (simp add: apply_operation_def RedisStore_def RedisStore_emptyCart_cases
                  keyspace_next_outcome redis_invariant_update split: option.splits)
qed

lemma redis_invariant_run:
  "keyspace c0 = Map.empty \<Longrightarrow> redis_invariant (keyspace (run RedisStore operations c0))"
proof (rule run_induct [where P = "\<lambda>c. redis_invariant (keyspace c)"])
  assume "keyspace c0 = Map.empty"
  then show "redis_invariant (keyspace c0)"
    by (simp add: redis_invariant_def)
qed (rule redis_invariant_step)

lemma RedisStore_getCart_Inr:
  "fst (RedisStore_getCart c v) = Inr cart \<Longrightarrow> stored_cart (keyspace c) v = Inr cart"
  by (simp add: RedisStore_getCart_cases split: option.splits)

lemma redis_unique:
  "keyspace c0 = Map.empty \<Longrightarrow>
   fst (getCart RedisStore (run RedisStore operations c0) v) = Inr cart \<Longrightarrow>
   unique_products cart"
  using redis_invariant_run [of c0 operations]
  by (auto simp: RedisStore_def dest!: RedisStore_getCart_Inr intro: unique_products_stored)

section \<open>What an addition leaves alone\<close>

lemma others_kept_refl: "others_kept p its its"
  by (simp add: others_kept_def list_all2_same)

lemma list_all2_increment_first:
  "list_all2 (\<lambda>a b. productId b = productId a \<and> (productId a = p \<or> b = a))
     its (increment_first p q its)"
  by (induction its) (simp_all add: list_all2_same)

lemma others_kept_merge_item: "others_kept p its (merge_item its p q)"
proof (cases "p \<in> productId ` set its")
  case True
  then show ?thesis
    by (simp add: others_kept_def merge_item_existing length_increment_first
                  list_all2_increment_first)
next
  case False
  then show ?thesis
    by (simp add: others_kept_def merge_item_new list_all2_same)
qed

lemma others_kept_wrap:
  assumes "others_kept p old new" "list_all (\<lambda>ci. int32_quantity (quantity ci)) old"
  shows "others_kept p old (map wrap_item new)"
proof -
  have "list_all2 (\<lambda>a b. productId b = productId a \<and> (productId a = p \<or> b = a))
          old (map wrap_item (take (length old) new))"
    using assms
    by (auto simp: others_kept_def list_all2_conv_all_nth list_all_length productId_wrap_item
                   wrap_item_int32)
  then show ?thesis
    using assms(1)
    by (simp add: others_kept_def take_map drop_map list_all_iff productId_wrap_item)
qed

lemma redis_addItem_others_kept:
  assumes "stored_cart (keyspace c) u = Inr cart0"
  shows "\<exists>cart1. stored_cart (keyspace (snd (RedisStore_addItem c u p q))) u = Inr cart1 \<and>
           others_kept p (items cart0) (items cart1)"
proof (cases "fst (RedisStore_addItem c u p q)")
  case (Inl e)
  with assms show ?thesis
    by (simp add: keyspace_RedisStore_addItem others_kept_refl)
next
  case (Inr x)
  let ?cart = "cart0\<lparr>items := merge_item (items cart0) p q\<rparr>"
  have "keyspace (snd (RedisStore_addItem c u p q)) =
          (keyspace c)(getCartKey u \<mapsto> Cart_encode ?cart)"
    using Inr assms by (simp add: keyspace_RedisStore_addItem)
  then have "stored_cart (keyspace (snd (RedisStore_addItem c u p q))) u =
          Inr \<lparr>userId = userId ?cart, items = map wrap_item (items ?cart)\<rparr>"
    by (simp add: stored_cart_encode)
  moreover have "others_kept p (items cart0) (map wrap_item (items ?cart))"
    using others_kept_merge_item [of p "items cart0" q] stored_cart_int32 [OF assms]
    by (simp add: others_kept_wrap)
  ultimately show ?thesis by simp
qed

lemma redis_addItem_other_key:
  "v \<noteq> u \<Longrightarrow>
   keyspace (snd (RedisStore_addItem c u p q)) (getCartKey v) = keyspace c (getCartKey v)"
  by (simp add: keyspace_RedisStore_addItem getCartKey_inject split: sum.splits)

lemma redis_emptyCart_other_key:
  "v \<noteq> u \<Longrightarrow>
   keyspace (snd (RedisStore_emptyCart c u)) (getCartKey v) = keyspace c (getCartKey v)"
  by (simp add: RedisStore_emptyCart_cases keyspace_next_outcome getCartKey_inject
           split: option.splits)

lemma RedisStore_getCart_reachable:
  "fst (RedisStore_getCart (c\<lparr>faults := []\<rparr>) u) = stored_cart (keyspace c) u"
  by (simp add: RedisStore_getCart_no_faults)

section \<open>Properties of the specification\<close>

subsection \<open>Reading a cart\<close>

lemma client_getBuffer_cases:
  "client_getBuffer c key =
     (case fst (next_outcome c) of
        Some e \<Rightarrow> (Inl e, snd (next_outcome c))
      | None \<Rightarrow> (Inr (keyspace c key), snd (next_outcome c)))"
  using keyspace_next_outcome [of c]
  by (auto simp: client_getBuffer_def split: prod.splits option.splits)

lemma RedisStore_getCart_absent:
  "fst (client_getBuffer c (getCartKey u)) = Inr None \<Longrightarrow>
   fst (RedisStore_getCart c u) = Inr \<lparr>userId = u, items = []\<rparr>"
  by (auto simp: RedisStore_getCart_def split: prod.splits sum.splits option.splits)

lemma RedisStore_getCart_absent_key:
  assumes "keyspace c (getCartKey u) = None"
  shows "fst (RedisStore_getCart c u) = Inr \<lparr>userId = u, items = []\<rparr> \<or>
         (\<exists>e. fst (client_getBuffer c (getCartKey u)) = Inl e \<and>
              fst (RedisStore_getCart c u) = Inl (storage_error e))"
  using assms
  by (simp add: RedisStore_getCart_cases client_getBuffer_cases stored_cart_def
           split: option.splits)

text \<open>
  C2. For a user without a cart record, \<open>getCart\<close> returns the empty cart of that user and
  raises nothing, on both backends. In the MemoryStore the map has no entry for the user;
  in the RedisStore the client reports no value for the key \<open>cart:u\<close>. When the key is
  absent on the server, the only failure \<open>RedisStore.getCart\<close> can report is that of a
  rejected read command, never the absence. The request handler passes the empty cart on.
\<close>

theorem absent_cart_is_empty:
  "(carts u = None \<longrightarrow>
      getCart MemoryStore carts u = (Inr \<lparr>userId = u, items = []\<rparr>, carts)) \<and>
   (fst (client_getBuffer c (getCartKey u)) = Inr None \<longrightarrow>
      fst (getCart RedisStore c u) = Inr \<lparr>userId = u, items = []\<rparr>) \<and>
   (keyspace c (getCartKey u) = None \<longrightarrow>
      fst (getCart RedisStore c u) = Inr \<lparr>userId = u, items = []\<rparr> \<or>
      (\<exists>e. fst (client_getBuffer c (getCartKey u)) = Inl e \<and>
           fst (getCart RedisStore c u) = Inl (storage_error e))) \<and>
   (carts u = None \<and> required (user_id request) = Some u \<longrightarrow>
      fst (handle_getCart MemoryStore request carts) =
        Success \<lparr>response_user_id = u, response_items = []\<rparr>)"
proof (intro conjI impI)
  assume "carts u = None"
  then show "getCart MemoryStore carts u = (Inr \<lparr>userId = u, items = []\<rparr>, carts)"
    by (simp add: MemoryStore_def MemoryStore_getCart_def)
next
  assume "fst (client_getBuffer c (getCartKey u)) = Inr None"
  then show "fst (getCart RedisStore c u) = Inr \<lparr>userId = u, items = []\<rparr>"
    by (simp add: RedisStore_def RedisStore_getCart_absent)
next
  assume "keyspace c (getCartKey u) = None"
  then show "fst (getCart RedisStore c u) = Inr \<lparr>userId = u, items = []\<rparr> \<or>
      (\<exists>e. fst (client_getBuffer c (getCartKey u)) = Inl e \<and>
           fst (getCart RedisStore c u) = Inl (storage_error e))"
    using RedisStore_getCart_absent_key [of c u] by (simp add: RedisStore_def)
next
  assume "carts u = None \<and> required (user_id request) = Some u"
  then show "fst (handle_getCart MemoryStore request carts) =
        Success \<lparr>response_user_id = u, response_items = []\<rparr>"
    by (simp add: handle_getCart_def MemoryStore_def MemoryStore_getCart_def)
qed

theorem absent_cart_is_empty_witness:
  "getCart MemoryStore MemoryStore_init ''never-seen'' =
     (Inr \<lparr>userId = ''never-seen'', items = []\<rparr>, MemoryStore_init) \<and>
   fst (getCart RedisStore fresh_client ''never-seen'') =
     Inr \<lparr>userId = ''never-seen'', items = []\<rparr> \<and>
   fst (handle_getCart MemoryStore \<lparr>user_id = Some ''never-seen''\<rparr> MemoryStore_init) =
     Success \<lparr>response_user_id = ''never-seen'', response_items = []\<rparr>"
proof -
  have m: "MemoryStore_init ''never-seen'' = None"
    by (simp add: MemoryStore_init_def)
  have r: "fst (client_getBuffer fresh_client (getCartKey ''never-seen'')) = Inr None"
    by (simp add: client_getBuffer_def next_outcome_def fresh_client_def)
  have k: "keyspace fresh_client (getCartKey ''never-seen'') = None"
    by (simp add: fresh_client_def)
  have q: "required (user_id \<lparr>user_id = Some ''never-seen''\<rparr>) = Some ''never-seen''"
    by (simp add: required_def)
  show ?thesis
    using absent_cart_is_empty
      [of MemoryStore_init "''never-seen''" fresh_client "\<lparr>user_id = Some ''never-seen''\<rparr>"]
      m r k q
    by simp
qed

lemma keyspace_handle_getCart:
  "keyspace (snd (handle_getCart RedisStore request c)) = keyspace c"
proof (cases "required (user_id request)")
  case None
  then show ?thesis by (simp add: handle_getCart_def)
next
  case (Some u)
  have "keyspace (snd (RedisStore_getCart c u)) = keyspace c"
    by (rule keyspace_RedisStore_getCart)
  with Some show ?thesis
    by (auto simp: handle_getCart_def RedisStore_def split: prod.splits sum.splits)
qed

text \<open>
  C10. \<open>getCart\<close> is read-only. \<open>MemoryStore.getCart\<close> returns the map of carts as it
  found it, so a user without an entry still has none; \<open>RedisStore.getCart\<close> leaves every
  key of the server, present or absent, as it was (it only consumes the outcome of its one
  read command). The same holds for the \<open>getCart\<close> request handler over either backend.
\<close>

theorem getCart_read_only:
  "snd (getCart MemoryStore carts u) = carts \<and>
   keyspace (snd (getCart RedisStore c u)) = keyspace c \<and>
   ping_reply (snd (getCart RedisStore c u)) = ping_reply c \<and>
   snd (handle_getCart MemoryStore request carts) = carts \<and>
   keyspace (snd (handle_getCart RedisStore request c)) = keyspace c"
proof -
  have "snd (getCart MemoryStore carts u) = carts"
    by (simp add: MemoryStore_def MemoryStore_getCart_def split: option.splits)
  moreover have "snd (handle_getCart MemoryStore request carts) = carts"
    by (simp add: handle_getCart_def MemoryStore_def MemoryStore_getCart_def
             split: option.splits)
  ultimately show ?thesis
    by (simp add: RedisStore_def keyspace_RedisStore_getCart ping_reply_RedisStore_getCart
                  keyspace_handle_getCart [unfolded RedisStore_def])
qed

subsection \<open>Emptying a cart\<close>

lemma RedisStore_emptyCart_success:
  assumes "fst (RedisStore_emptyCart c u) = Inr ()"
  shows "keyspace (snd (RedisStore_emptyCart c u)) =
           (keyspace c)(getCartKey u \<mapsto> Cart_encode \<lparr>userId = u, items = []\<rparr>)"
  using assms
  by (simp add: RedisStore_emptyCart_cases keyspace_next_outcome split: option.splits)

lemma keyspace_RedisStore_emptyCart_again:
  assumes "keyspace c (getCartKey u) = Some (Cart_encode \<lparr>userId = u, items = []\<rparr>)"
  shows "keyspace (snd (RedisStore_emptyCart c u)) = keyspace c"
  using assms
  by (auto simp: RedisStore_emptyCart_cases keyspace_next_outcome split: option.splits)

text \<open>
  C3. \<open>emptyCart(u)\<close> writes the explicit empty record of \<open>u\<close>, whatever was stored before.
  MemoryStore: the call succeeds, the map then holds \<open>{userId: u, items: []}\<close> for \<open>u\<close>
  (the entry is present, not removed), \<open>getCart(u)\<close> returns it, and a second call changes
  nothing. RedisStore: a call whose write is not rejected succeeds (always, when no
  command is rejected); after a successful call the key \<open>cart:u\<close> is present and holds the
  encoding of the empty cart, \<open>getCart(u)\<close> returns \<open>{userId: u, items: []}\<close> once its read
  reaches the server, and a second call, successful or not, leaves the keys as they are.
\<close>

theorem emptyCart_writes_empty_record:
  "fst (emptyCart MemoryStore carts u) = Inr () \<and>
   snd (emptyCart MemoryStore carts u) u = Some \<lparr>userId = u, items = []\<rparr> \<and>
   fst (getCart MemoryStore (snd (emptyCart MemoryStore carts u)) u) =
     Inr \<lparr>userId = u, items = []\<rparr> \<and>
   snd (emptyCart MemoryStore (snd (emptyCart MemoryStore carts u)) u) =
     snd (emptyCart MemoryStore carts u) \<and>
   (faults c = [] \<longrightarrow> fst (emptyCart RedisStore c u) = Inr ()) \<and>
   (fst (emptyCart RedisStore c u) = Inr () \<longrightarrow>
      keyspace (snd (emptyCart RedisStore c u)) (getCartKey u) =
        Some (Cart_encode \<lparr>userId = u, items = []\<rparr>) \<and>
      fst (getCart RedisStore ((snd (emptyCart RedisStore c u))\<lparr>faults := []\<rparr>) u) =
        Inr \<lparr>userId = u, items = []\<rparr> \<and>
      keyspace (snd (emptyCart RedisStore (snd (emptyCart RedisStore c u)) u)) =
        keyspace (snd (emptyCart RedisStore c u)))"
proof -
  have memory:
    "fst (emptyCart MemoryStore carts u) = Inr () \<and>
     snd (emptyCart MemoryStore carts u) u = Some \<lparr>userId = u, items = []\<rparr> \<and>
     fst (getCart MemoryStore (snd (emptyCart MemoryStore carts u)) u) =
       Inr \<lparr>userId = u, items = []\<rparr> \<and>
     snd (emptyCart MemoryStore (snd (emptyCart MemoryStore carts u)) u) =
       snd (emptyCart MemoryStore carts u)"
    by (simp add: MemoryStore_def MemoryStore_emptyCart_def MemoryStore_getCart_def)
  have always: "faults c = [] \<longrightarrow> fst (emptyCart RedisStore c u) = Inr ()"
    by (simp add: RedisStore_def RedisStore_emptyCart_cases next_outcome_no_faults)
  have redis: "keyspace (snd (emptyCart RedisStore c u)) (getCartKey u) =
        Some (Cart_encode \<lparr>userId = u, items = []\<rparr>) \<and>
      fst (getCart RedisStore ((snd (emptyCart RedisStore c u))\<lparr>faults := []\<rparr>) u) =
        Inr \<lparr>userId = u, items = []\<rparr> \<and>
      keyspace (snd (emptyCart RedisStore (snd (emptyCart RedisStore c u)) u)) =
        keyspace (snd (emptyCart RedisStore c u))"
    if ok: "fst (emptyCart RedisStore c u) = Inr ()"
  proof -
    let ?c = "snd (RedisStore_emptyCart c u)"
    from ok have "fst (RedisStore_emptyCart c u) = Inr ()"
      by (simp add: RedisStore_def)
    then have k: "keyspace ?c (getCartKey u) = Some (Cart_encode \<lparr>userId = u, items = []\<rparr>)"
      by (simp add: RedisStore_emptyCart_success)
    then have "stored_cart (keyspace ?c) u = Inr \<lparr>userId = u, items = []\<rparr>"
      by (simp add: stored_cart_encode)
    then have "fst (RedisStore_getCart (?c\<lparr>faults := []\<rparr>) u) = Inr \<lparr>userId = u, items = []\<rparr>"
      by (simp add: RedisStore_getCart_reachable)
    moreover have "keyspace (snd (RedisStore_emptyCart ?c u)) = keyspace ?c"
      using k by (rule keyspace_RedisStore_emptyCart_again)
    ultimately show ?thesis
      using k by (simp add: RedisStore_def)
  qed
  from memory always redis show ?thesis
    by blast
qed

theorem emptyCart_writes_empty_record_witness:
  "keyspace (snd (emptyCart RedisStore fresh_client ''u1'')) (getCartKey ''u1'') =
     Some (Cart_encode \<lparr>userId = ''u1'', items = []\<rparr>) \<and>
   fst (getCart RedisStore ((snd (emptyCart RedisStore fresh_client ''u1''))\<lparr>faults := []\<rparr>) ''u1'') =
     Inr \<lparr>userId = ''u1'', items = []\<rparr> \<and>
   fst (getCart MemoryStore (snd (emptyCart MemoryStore MemoryStore_init ''u1'')) ''u1'') =
     Inr \<lparr>userId = ''u1'', items = []\<rparr>"
proof -
  have "faults fresh_client = []"
    by (simp add: fresh_client_def)
  then show ?thesis
    using emptyCart_writes_empty_record [of MemoryStore_init "''u1''" fresh_client]
    by simp
qed

subsection \<open>The connectivity probe\<close>

text \<open>
  C8. \<open>ping()\<close> never throws and returns a boolean: \<open>RedisStore.ping\<close> always returns a
  value, \<open>true\<close> exactly when the client's \<open>PING\<close> came back with the reply \<open>PONG\<close> and
  \<open>false\<close> for any other reply and for every rejected command; \<open>MemoryStore.ping\<close> returns
  \<open>true\<close>. For any store, the health check answers \<open>SERVING\<close> exactly when \<open>ping()\<close>
  returned \<open>true\<close>, and \<open>NOT_SERVING\<close> exactly when it returned \<open>false\<close> or raised; it has
  no other answer.
\<close>

theorem ping_never_throws:
  "(\<exists>b. fst (ping RedisStore c) = Inr b) \<and>
   (fst (ping RedisStore c) = Inr True) = (fst (client_ping c) = Inr ''PONG'') \<and>
   (fst (ping RedisStore c) = Inr False) = (fst (client_ping c) \<noteq> Inr ''PONG'') \<and>
   fst (ping MemoryStore carts) = Inr True \<and>
   (fst (check store s) = SERVING) = (fst (ping store s) = Inr True) \<and>
   (fst (check store s) = NOT_SERVING) =
     (fst (ping store s) = Inr False \<or> (\<exists>e. fst (ping store s) = Inl e)) \<and>
   fst (check store s) \<noteq> UNKNOWN"
proof -
  have redis:
    "(\<exists>b. fst (ping RedisStore c) = Inr b) \<and>
     (fst (ping RedisStore c) = Inr True) = (fst (client_ping c) = Inr ''PONG'') \<and>
     (fst (ping RedisStore c) = Inr False) = (fst (client_ping c) \<noteq> Inr ''PONG'')"
    by (cases "client_ping c"; cases "fst (client_ping c)")
       (auto simp: RedisStore_def RedisStore_ping_def)
  have memory: "fst (ping MemoryStore carts) = Inr True"
    by (simp add: MemoryStore_def MemoryStore_ping_def)
  have health:
    "(fst (check store s) = SERVING) = (fst (ping store s) = Inr True) \<and>
     (fst (check store s) = NOT_SERVING) =
       (fst (ping store s) = Inr False \<or> (\<exists>e. fst (ping store s) = Inl e)) \<and>
     fst (check store s) \<noteq> UNKNOWN"
    by (cases "ping store s"; cases "fst (ping store s)") (auto simp: check_def)
  from redis memory health show ?thesis
    by blast
qed

subsection \<open>What addItem and emptyCart leave alone\<close>

lemma memory_addItem_others_kept:
  assumes "fst (MemoryStore_getCart carts u) = Inr cart0"
  shows "\<exists>cart1. fst (MemoryStore_getCart (snd (MemoryStore_addItem carts u p q)) u) = Inr cart1 \<and>
           others_kept p (items cart0) (items cart1)"
  using assms others_kept_merge_item [of p "items cart0" q]
  by (auto simp: MemoryStore_getCart_def MemoryStore_addItem_def Let_def split: option.splits)

text \<open>
  C9. \<open>addItem(u, p, q)\<close> and \<open>emptyCart(u)\<close> touch the cart of \<open>u\<close> only: in the
  MemoryStore the entry of every other user \<open>v\<close> is unchanged, in the RedisStore the value
  under the key of every other user is unchanged. Within the cart of \<open>u\<close>, \<open>addItem\<close>
  changes at most the entry for \<open>p\<close> (\<open>others_kept\<close>): every position of the old item
  sequence holds the same product afterwards, an item of another product is the same item
  at the same position, and anything added behind the old items is an entry for \<open>p\<close>. For
  the RedisStore the carts compared are those \<open>getCart(u)\<close> returns before and after, its
  read reaching the server; this holds whether \<open>addItem\<close> succeeds or fails.
\<close>

theorem addItem_emptyCart_frame:
  "(v \<noteq> u \<longrightarrow>
      snd (addItem MemoryStore carts u p q) v = carts v \<and>
      snd (emptyCart MemoryStore carts u) v = carts v \<and>
      keyspace (snd (addItem RedisStore c u p q)) (getCartKey v) = keyspace c (getCartKey v) \<and>
      keyspace (snd (emptyCart RedisStore c u)) (getCartKey v) = keyspace c (getCartKey v)) \<and>
   (fst (getCart MemoryStore carts u) = Inr cart0 \<longrightarrow>
      (\<exists>cart1. fst (getCart MemoryStore (snd (addItem MemoryStore carts u p q)) u) = Inr cart1 \<and>
               others_kept p (items cart0) (items cart1))) \<and>
   (fst (getCart RedisStore (c\<lparr>faults := []\<rparr>) u) = Inr rcart0 \<longrightarrow>
      (\<exists>cart1. fst (getCart RedisStore ((snd (addItem RedisStore c u p q))\<lparr>faults := []\<rparr>) u) =
                 Inr cart1 \<and>
               others_kept p (items rcart0) (items cart1)))"
proof (intro conjI impI)
  assume "v \<noteq> u"
  then show "snd (addItem MemoryStore carts u p q) v = carts v"
    and "snd (emptyCart MemoryStore carts u) v = carts v"
    by (simp_all add: MemoryStore_def MemoryStore_addItem_def MemoryStore_emptyCart_def Let_def)
next
  assume "v \<noteq> u"
  then show "keyspace (snd (addItem RedisStore c u p q)) (getCartKey v) = keyspace c (getCartKey v)"
    and "keyspace (snd (emptyCart RedisStore c u)) (getCartKey v) = keyspace c (getCartKey v)"
    by (simp_all add: RedisStore_def redis_addItem_other_key redis_emptyCart_other_key)
next
  assume "fst (getCart MemoryStore carts u) = Inr cart0"
  then show "\<exists>cart1. fst (getCart MemoryStore (snd (addItem MemoryStore carts u p q)) u) = Inr cart1 \<and>
               others_kept p (items cart0) (items cart1)"
    using memory_addItem_others_kept [of carts u cart0 p q] by (simp add: MemoryStore_def)
next
  assume "fst (getCart RedisStore (c\<lparr>faults := []\<rparr>) u) = Inr rcart0"
  then have "stored_cart (keyspace c) u = Inr rcart0"
    by (simp add: RedisStore_def RedisStore_getCart_reachable)
  then show "\<exists>cart1. fst (getCart RedisStore ((snd (addItem RedisStore c u p q))\<lparr>faults := []\<rparr>) u) =
                 Inr cart1 \<and>
               others_kept p (items rcart0) (items cart1)"
    using redis_addItem_others_kept [of c u rcart0 p q]
    by (simp add: RedisStore_def RedisStore_getCart_reachable)
qed

theorem addItem_emptyCart_frame_witness:
  "snd (addItem MemoryStore
         [''u1'' \<mapsto> \<lparr>userId = ''u1'', items = [\<lparr>productId = ''p2'', quantity = 1\<rparr>]\<rparr>]
         ''u1'' ''p1'' 3) ''u2'' = None \<and>
   keyspace (snd (addItem RedisStore fresh_client ''u1'' ''p1'' 3)) (getCartKey ''u2'') = None \<and>
   keyspace (snd (emptyCart RedisStore fresh_client ''u1'')) (getCartKey ''u2'') = None \<and>
   (\<exists>cart1.
      fst (getCart MemoryStore
            (snd (addItem MemoryStore
                   [''u1'' \<mapsto> \<lparr>userId = ''u1'', items = [\<lparr>productId = ''p2'', quantity = 1\<rparr>]\<rparr>]
                   ''u1'' ''p1'' 3)) ''u1'') = Inr cart1 \<and>
      others_kept ''p1'' [\<lparr>productId = ''p2'', quantity = 1\<rparr>] (items cart1)) \<and>
   (\<exists>cart1.
      fst (getCart RedisStore ((snd (addItem RedisStore fresh_client ''u1'' ''p1'' 3))\<lparr>faults := []\<rparr>)
            ''u1'') = Inr cart1 \<and>
      others_kept ''p1'' [] (items cart1))"
proof -
  let ?carts = "[''u1'' \<mapsto> \<lparr>userId = ''u1'', items = [\<lparr>productId = ''p2'', quantity = 1\<rparr>]\<rparr>]"
  have d: "''u2'' \<noteq> ''u1''"
    by simp
  have m: "fst (getCart MemoryStore ?carts ''u1'') =
             Inr \<lparr>userId = ''u1'', items = [\<lparr>productId = ''p2'', quantity = 1\<rparr>]\<rparr>"
    by (simp add: MemoryStore_def MemoryStore_getCart_def)
  have r: "fst (getCart RedisStore (fresh_client\<lparr>faults := []\<rparr>) ''u1'') =
             Inr \<lparr>userId = ''u1'', items = []\<rparr>"
    by (simp add: RedisStore_def RedisStore_getCart_no_faults stored_cart_def fresh_client_def)
  have k: "keyspace fresh_client (getCartKey ''u2'') = None"
    by (simp add: fresh_client_def)
  show ?thesis
    using addItem_emptyCart_frame
      [of "''u2''" "''u1''" ?carts "''p1''" 3 fresh_client
          "\<lparr>userId = ''u1'', items = [\<lparr>productId = ''p2'', quantity = 1\<rparr>]\<rparr>"
          "\<lparr>userId = ''u1'', items = []\<rparr>"]
      d m r k
    by simp
qed

subsection \<open>Merging on write\<close>

text \<open>
  C1 (as amended). Two sequential additions \<open>addItem(u, p, q1)\<close>, \<open>addItem(u, p, q2)\<close> to a
  cart of \<open>u\<close> that has no entry for \<open>p\<close> (in particular to no cart at all) leave exactly
  one entry for \<open>p\<close>. In the MemoryStore its quantity is \<open>q1 + q2\<close> when \<open>q1\<close>, \<open>q2\<close> are
  positive integers with \<open>q1 + q2 \<le> 2^53\<close>, where the sum of two doubles is exact. In the
  RedisStore its quantity is \<open>q1 + q2\<close> when no command is rejected and \<open>q1\<close>, \<open>q2\<close> are
  positive integers with \<open>q1 + q2 < 2^31\<close>, the range of the \<open>int32\<close> field the quantity
  is stored in. Every cart that \<open>getCart\<close> returns in a state reached by sequential
  operations from the empty store has at most one entry per product, on both backends
  (for the RedisStore under any schedule of rejected commands).
\<close>

theorem merge_on_write:
  "(fst (getCart MemoryStore carts u) = Inr cart0 \<and> p \<notin> productId ` set (items cart0) \<longrightarrow>
      (\<exists>cart. fst (getCart MemoryStore
                    (run MemoryStore [AddItem u p q1, AddItem u p q2] carts) u) = Inr cart \<and>
              length (entries_for p cart) = 1)) \<and>
   (fst (getCart MemoryStore carts u) = Inr cart0 \<and> p \<notin> productId ` set (items cart0) \<and>
    is_integer q1 \<and> is_integer q2 \<and> 0 < q1 \<and> 0 < q2 \<and> q1 + q2 \<le> 2 ^ 53 \<longrightarrow>
      (\<exists>cart. fst (getCart MemoryStore
                    (run MemoryStore [AddItem u p q1, AddItem u p q2] carts) u) = Inr cart \<and>
              entries_for p cart = [\<lparr>productId = p, quantity = q1 + q2\<rparr>])) \<and>
   (faults c = [] \<and> fst (getCart RedisStore c u) = Inr rcart0 \<and>
    p \<notin> productId ` set (items rcart0) \<and>
    is_integer q1 \<and> is_integer q2 \<and> 0 < q1 \<and> 0 < q2 \<and> q1 + q2 < 2 ^ 31 \<longrightarrow>
      (\<exists>cart. fst (getCart RedisStore
                    (run RedisStore [AddItem u p q1, AddItem u p q2] c) u) = Inr cart \<and>
              entries_for p cart = [\<lparr>productId = p, quantity = q1 + q2\<rparr>])) \<and>
   (fst (getCart MemoryStore (run MemoryStore operations MemoryStore_init) v) = Inr mcart \<longrightarrow>
      unique_products mcart) \<and>
   (keyspace c0 = Map.empty \<and>
    fst (getCart RedisStore (run RedisStore operations c0) v) = Inr rcart \<longrightarrow>
      unique_products rcart)"
proof -
  have double_sum: "fst (getCart MemoryStore
        (run MemoryStore [AddItem u p q1, AddItem u p q2] carts) u) =
        Inr (cart0\<lparr>items := items cart0 @ [\<lparr>productId = p, quantity = js_add q1 q2\<rparr>]\<rparr>) \<and>
      entries_for p (cart0\<lparr>items := items cart0 @ [\<lparr>productId = p, quantity = js_add q1 q2\<rparr>]\<rparr>) =
        [\<lparr>productId = p, quantity = js_add q1 q2\<rparr>]"
    if a: "fst (getCart MemoryStore carts u) = Inr cart0 \<and> p \<notin> productId ` set (items cart0)"
  proof -
    from a have "fst (getCart MemoryStore (run MemoryStore [AddItem u p q1, AddItem u p q2] carts) u) =
        Inr (cart0\<lparr>items := items cart0 @ [\<lparr>productId = p, quantity = js_add q1 q2\<rparr>]\<rparr>)"
      by (simp add: memory_two_adds)
    with a show ?thesis
      by (simp add: entries_for_append_new)
  qed
  have memory: "\<exists>cart. fst (getCart MemoryStore
                    (run MemoryStore [AddItem u p q1, AddItem u p q2] carts) u) = Inr cart \<and>
              entries_for p cart = [\<lparr>productId = p, quantity = q1 + q2\<rparr>]"
    if a: "fst (getCart MemoryStore carts u) = Inr cart0 \<and> p \<notin> productId ` set (items cart0) \<and>
      is_integer q1 \<and> is_integer q2 \<and> 0 < q1 \<and> 0 < q2 \<and> q1 + q2 \<le> 2 ^ 53"
  proof -
    from a have "\<bar>q1 + q2\<bar> \<le> 2 ^ 53"
      by simp
    with a have "js_add q1 q2 = q1 + q2"
      by (simp add: js_add_integer)
    with double_sum a show ?thesis
      by simp
  qed
  have one_entry: "\<exists>cart. fst (getCart MemoryStore
                    (run MemoryStore [AddItem u p q1, AddItem u p q2] carts) u) = Inr cart \<and>
              length (entries_for p cart) = 1"
    if a: "fst (getCart MemoryStore carts u) = Inr cart0 \<and> p \<notin> productId ` set (items cart0)"
    using double_sum [OF a] by simp
  have redis: "\<exists>cart. fst (getCart RedisStore
                    (run RedisStore [AddItem u p q1, AddItem u p q2] c) u) = Inr cart \<and>
              entries_for p cart = [\<lparr>productId = p, quantity = q1 + q2\<rparr>]"
    if a: "faults c = [] \<and> fst (getCart RedisStore c u) = Inr rcart0 \<and>
      p \<notin> productId ` set (items rcart0) \<and>
      is_integer q1 \<and> is_integer q2 \<and> 0 < q1 \<and> 0 < q2 \<and> q1 + q2 < 2 ^ 31"
  proof -
    from a have "fst (getCart RedisStore (run RedisStore [AddItem u p q1, AddItem u p q2] c) u) =
        Inr (rcart0\<lparr>items := items rcart0 @ [\<lparr>productId = p, quantity = q1 + q2\<rparr>]\<rparr>)"
      by (simp add: redis_two_adds)
    with a show ?thesis
      by (simp add: entries_for_append_new)
  qed
  have memory_inv: "unique_products mcart"
    if "fst (getCart MemoryStore (run MemoryStore operations MemoryStore_init) v) = Inr mcart"
    using that by (rule memory_unique)
  have redis_inv: "unique_products rcart"
    if a: "keyspace c0 = Map.empty \<and>
      fst (getCart RedisStore (run RedisStore operations c0) v) = Inr rcart"
  proof -
    from a have "keyspace c0 = Map.empty"
      and "fst (getCart RedisStore (run RedisStore operations c0) v) = Inr rcart"
      by simp_all
    then show ?thesis
      by (rule redis_unique)
  qed
  from one_entry memory redis memory_inv redis_inv show ?thesis
    by blast
qed

theorem merge_on_write_witness:
  "(\<exists>cart. fst (getCart MemoryStore
                 (run MemoryStore [AddItem ''u1'' ''p1'' 2, AddItem ''u1'' ''p1'' 3] MemoryStore_init)
                 ''u1'') = Inr cart \<and>
           entries_for ''p1'' cart = [\<lparr>productId = ''p1'', quantity = 2 + 3\<rparr>] \<and>
           length (entries_for ''p1'' cart) = 1 \<and>
           unique_products cart) \<and>
   (\<exists>cart. fst (getCart RedisStore
                 (run RedisStore [AddItem ''u1'' ''p1'' 2, AddItem ''u1'' ''p1'' 3] fresh_client)
                 ''u1'') = Inr cart \<and>
           entries_for ''p1'' cart = [\<lparr>productId = ''p1'', quantity = 2 + 3\<rparr>] \<and>
           unique_products cart)"
proof -
  let ?ops = "[AddItem ''u1'' ''p1'' 2, AddItem ''u1'' ''p1'' 3]"
  let ?empty = "\<lparr>userId = ''u1'', items = []\<rparr>"
  note inst = merge_on_write
    [of MemoryStore_init "''u1''" ?empty "''p1''" 2 3 fresh_client ?empty ?ops "''u1''" _
        fresh_client]
  have m: "fst (getCart MemoryStore MemoryStore_init ''u1'') = Inr \<lparr>userId = ''u1'', items = []\<rparr>"
    by (simp add: MemoryStore_def MemoryStore_getCart_def MemoryStore_init_def)
  have f: "faults fresh_client = []" "keyspace fresh_client = Map.empty"
    by (simp_all add: fresh_client_def)
  have r: "fst (getCart RedisStore fresh_client ''u1'') = Inr \<lparr>userId = ''u1'', items = []\<rparr>"
    by (simp add: RedisStore_def RedisStore_getCart_no_faults stored_cart_def fresh_client_def)
  have q: "is_integer 2" "is_integer 3"
    by (simp_all add: is_integer_def)
  from inst m q obtain mcart where
    mc: "fst (getCart MemoryStore (run MemoryStore ?ops MemoryStore_init) ''u1'') = Inr mcart"
      "entries_for ''p1'' mcart = [\<lparr>productId = ''p1'', quantity = 2 + 3\<rparr>]"
    by auto
  from inst m obtain mcart' where
    mc': "fst (getCart MemoryStore (run MemoryStore ?ops MemoryStore_init) ''u1'') = Inr mcart'"
      "length (entries_for ''p1'' mcart') = 1"
    by auto
  from mc(1) mc'(1) have same: "mcart' = mcart"
    by simp
  from inst f r q obtain rcart where
    rc: "fst (getCart RedisStore (run RedisStore ?ops fresh_client) ''u1'') = Inr rcart"
      "entries_for ''p1'' rcart = [\<lparr>productId = ''p1'', quantity = 2 + 3\<rparr>]"
    by auto
  from inst [of mcart rcart] mc(1) rc(1) f(2)
  have "unique_products mcart" "unique_products rcart"
    by simp_all
  with mc mc' same rc show ?thesis
    by blast
qed

theorem merge_on_write_counterexample:
  "fst (getCart RedisStore
         (run RedisStore [AddItem ''u1'' ''p1'' 1073741824, AddItem ''u1'' ''p1'' 1073741824]
            fresh_client) ''u1'') =
     Inr \<lparr>userId = ''u1'', items = [\<lparr>productId = ''p1'', quantity = - 2147483648\<rparr>]\<rparr> \<and>
   entries_for ''p1''
     \<lparr>userId = ''u1'', items = [\<lparr>productId = ''p1'', quantity = - 2147483648\<rparr>]\<rparr> \<noteq>
     [\<lparr>productId = ''p1'', quantity = 1073741824 + 1073741824\<rparr>] \<and>
   fst (getCart MemoryStore
         (run MemoryStore [AddItem ''u1'' ''p1'' 9007199254740992, AddItem ''u1'' ''p1'' 1]
            MemoryStore_init) ''u1'') =
     Inr \<lparr>userId = ''u1'', items = [\<lparr>productId = ''p1'', quantity = 9007199254740992\<rparr>]\<rparr> \<and>
   entries_for ''p1''
     \<lparr>userId = ''u1'', items = [\<lparr>productId = ''p1'', quantity = 9007199254740992\<rparr>]\<rparr> \<noteq>
     [\<lparr>productId = ''p1'', quantity = 9007199254740992 + 1\<rparr>]"
proof -
  have f: "faults fresh_client = []"
    by (simp add: fresh_client_def)
  have g: "fst (getCart RedisStore fresh_client ''u1'') = Inr \<lparr>userId = ''u1'', items = []\<rparr>"
    by (simp add: RedisStore_def RedisStore_getCart_no_faults stored_cart_def fresh_client_def)
  have q: "int32_quantity 1073741824" "is_integer 1073741824"
    "\<bar>1073741824 + 1073741824 :: real\<bar> \<le> 2 ^ 53"
    by (simp_all add: int32_quantity_def is_integer_def)
  have w: "wrap32 \<lfloor>1073741824 + 1073741824 :: real\<rfloor> = - 2147483648"
    by (simp add: wrap32_def)
  have redis: "fst (getCart RedisStore
         (run RedisStore [AddItem ''u1'' ''p1'' 1073741824, AddItem ''u1'' ''p1'' 1073741824]
            fresh_client) ''u1'') =
     Inr \<lparr>userId = ''u1'', items = [\<lparr>productId = ''p1'', quantity = - 2147483648\<rparr>]\<rparr>"
    using redis_two_adds_wrapped [OF f g _ q, of "''p1''"] w
    by simp
  have m: "fst (getCart MemoryStore MemoryStore_init ''u1'') = Inr \<lparr>userId = ''u1'', items = []\<rparr>"
    by (simp add: MemoryStore_def MemoryStore_getCart_def MemoryStore_init_def)
  have memory: "fst (getCart MemoryStore
         (run MemoryStore [AddItem ''u1'' ''p1'' 9007199254740992, AddItem ''u1'' ''p1'' 1]
            MemoryStore_init) ''u1'') =
     Inr \<lparr>userId = ''u1'', items = [\<lparr>productId = ''p1'', quantity = 9007199254740992\<rparr>]\<rparr>"
    using memory_two_adds [OF m, of "''p1''" 9007199254740992 1]
    by (simp add: js_add_2_53)
  from redis memory show ?thesis
    by (simp add: entries_for_def)
qed

subsection \<open>The codec\<close>

lemma deserializeCart_serializeCart:
  assumes "list_all (\<lambda>ci. int32_quantity (quantity ci)) (items cart)"
  shows "serializeCart cart = Inr (Cart_encode cart) \<and> deserializeCart (Cart_encode cart) = Inr cart"
proof -
  from assms have "list_all (\<lambda>ci. is_integer (quantity ci)) (items cart)"
    by (simp add: list_all_iff int32_quantity_integer)
  then have "serializeCart cart = Inr (Cart_encode cart)"
    by (simp add: serializeCart_cases)
  moreover have "deserializeCart (Cart_encode cart) = Inr cart"
    by (simp add: deserializeCart_encode wrap_items_int32 [OF assms] proto_cart)
  ultimately show ?thesis ..
qed

text \<open>
  C4 (as amended). For every \<open>Cart\<close> whose quantities are integers of the \<open>int32\<close> range
  \<open>-2^31 \<le> q < 2^31\<close>, \<open>serializeCart\<close> succeeds and \<open>deserializeCart\<close> of its result is
  the same \<open>Cart\<close>. For a cart with integer quantities the serialization is the encoding,
  and the encoding has the layout of section 6: read as wire-format fields, it is field 1,
  length-delimited, holding the bytes of \<open>userId\<close>, followed by one field 2,
  length-delimited, per item in order, each holding an encoded \<open>CartItem\<close>; an encoded
  \<open>CartItem\<close> is field 1, length-delimited, holding the bytes of \<open>productId\<close>, and field 2,
  a varint, holding the quantity as an \<open>int32\<close>. The keys of these fields are the bytes
  \<open>0x0A\<close>, \<open>0x12\<close> and \<open>0x10\<close>.
\<close>

theorem codec_round_trip:
  "(list_all (\<lambda>ci. int32_quantity (quantity ci)) (items cart) \<longrightarrow>
      (\<exists>buffer. serializeCart cart = Inr buffer \<and> deserializeCart buffer = Inr cart)) \<and>
   (list_all (\<lambda>ci. is_integer (quantity ci)) (items cart) \<longrightarrow>
      serializeCart cart = Inr (Cart_encode cart)) \<and>
   parse_fields (Cart_encode cart) =
     Some ((1, LengthDelimited (bytes_of_string (userId cart))) #
           map (\<lambda>ci. (2, LengthDelimited (CartItem_encode ci))) (items cart)) \<and>
   parse_fields (CartItem_encode ci) =
     Some [(1, LengthDelimited (bytes_of_string (productId ci))),
           (2, Varint (int32_wire \<lfloor>quantity ci\<rfloor>))] \<and>
   string_of_bytes (bytes_of_string s) = s \<and>
   (- (2 ^ 31) \<le> n \<and> n < 2 ^ 31 \<longrightarrow> int32_of_varint (int32_wire n) = n) \<and>
   key_of 1 2 = [0x0A] \<and> key_of 2 2 = [0x12] \<and> key_of 2 0 = [0x10]"
proof -
  have "key_of 1 2 = [0x0A] \<and> key_of 2 2 = [0x12] \<and> key_of 2 0 = [0x10]"
    by (simp add: key_of_def put_varint.simps)
  moreover have "- (2 ^ 31) \<le> n \<and> n < 2 ^ 31 \<longrightarrow> int32_of_varint (int32_wire n) = n"
    by (simp add: int32_of_varint_wire wrap32_id)
  moreover have "list_all (\<lambda>ci. int32_quantity (quantity ci)) (items cart) \<longrightarrow>
      (\<exists>buffer. serializeCart cart = Inr buffer \<and> deserializeCart buffer = Inr cart)"
    using deserializeCart_serializeCart [of cart] by blast
  ultimately show ?thesis
    by (simp add: serializeCart_cases parse_fields_Cart_encode parse_fields_CartItem_encode
                  string_of_bytes_of_string)
qed

theorem codec_round_trip_witness:
  "serializeCart \<lparr>userId = ''u1'', items = [\<lparr>productId = ''p1'', quantity = 5\<rparr>]\<rparr> =
     Inr [0x0A, 2, 0x75, 0x31, 0x12, 6, 0x0A, 2, 0x70, 0x31, 0x10, 5] \<and>
   deserializeCart [0x0A, 2, 0x75, 0x31, 0x12, 6, 0x0A, 2, 0x70, 0x31, 0x10, 5] =
     Inr \<lparr>userId = ''u1'', items = [\<lparr>productId = ''p1'', quantity = 5\<rparr>]\<rparr>"
proof -
  let ?cart = "\<lparr>userId = ''u1'', items = [\<lparr>productId = ''p1'', quantity = 5\<rparr>]\<rparr>"
  have e: "Cart_encode ?cart = [0x0A, 2, 0x75, 0x31, 0x12, 6, 0x0A, 2, 0x70, 0x31, 0x10, 5]"
    by (simp add: Cart_encode_def CartItem_encode_def put_string_def put_message_def
                  put_int32_def key_of_def put_varint.simps bytes_of_string_def int32_wire_def)
  have q: "list_all (\<lambda>ci. int32_quantity (quantity ci)) (items ?cart)"
    "list_all (\<lambda>ci. is_integer (quantity ci)) (items ?cart)"
    by (simp_all add: int32_quantity_def is_integer_def)
  from codec_round_trip [of ?cart] q obtain buffer where
    b: "serializeCart ?cart = Inr buffer" "deserializeCart buffer = Inr ?cart"
    by blast
  from codec_round_trip [of ?cart] q have "serializeCart ?cart = Inr (Cart_encode ?cart)"
    by blast
  with b e show ?thesis
    by simp
qed

theorem codec_round_trip_counterexample:
  "serializeCart \<lparr>userId = ''u1'', items = [\<lparr>productId = ''p1'', quantity = 2147483648\<rparr>]\<rparr> =
     Inr (Cart_encode \<lparr>userId = ''u1'', items = [\<lparr>productId = ''p1'', quantity = 2147483648\<rparr>]\<rparr>) \<and>
   deserializeCart
     (Cart_encode \<lparr>userId = ''u1'', items = [\<lparr>productId = ''p1'', quantity = 2147483648\<rparr>]\<rparr>) =
     Inr \<lparr>userId = ''u1'', items = [\<lparr>productId = ''p1'', quantity = - 2147483648\<rparr>]\<rparr> \<and>
   deserializeCart
     (Cart_encode \<lparr>userId = ''u1'', items = [\<lparr>productId = ''p1'', quantity = 2147483648\<rparr>]\<rparr>) \<noteq>
     Inr \<lparr>userId = ''u1'', items = [\<lparr>productId = ''p1'', quantity = 2147483648\<rparr>]\<rparr>"
  by (simp add: serializeCart_cases deserializeCart_encode is_integer_def wrap_item_def wrap32_def)

subsection \<open>Validation in the request handlers\<close>

lemma handle_addItem_invalid:
  assumes "invalid_addItem request"
  shows "\<exists>message. handle_addItem store request s = (Failure INVALID_ARGUMENT message, s)"
  using assms
  by (auto simp: invalid_addItem_def handle_addItem_def split: option.splits)

lemma handle_addItem_valid:
  assumes "required (user_id request) = Some u" "item request = Some payload"
    "required (product_id payload) = Some p" "accepted_quantity (quantity_of payload) = Some q"
  shows "snd (snd (handle_addItem (recording store) request (s, calls))) =
           calls @ [AddItemCall u p q]"
  using assms
  by (auto simp: handle_addItem_def recording_def split: prod.splits sum.splits)

lemma accepted_quantity_Some:
  "accepted_quantity field = Some q \<longleftrightarrow> field = Number q \<and> 0 < q"
  by (auto simp: accepted_quantity_def split: quantity_field.splits)

text \<open>
  C5. A request that fails validation is answered with \<open>INVALID_ARGUMENT\<close> and no storage
  operation is invoked. \<open>addItem\<close>: \<open>user_id\<close> missing or blank, item payload missing,
  \<open>product_id\<close> missing or blank, quantity missing, \<open>NaN\<close>, zero or negative; \<open>getCart\<close> and
  \<open>emptyCart\<close>: \<open>user_id\<close> missing or blank. The handlers run here over any store wrapped
  to record the calls it receives: the store's state and the list of recorded calls come
  back unchanged, so every cart stored before, that of the user included, is as it was.
\<close>

theorem validation_precedes_storage:
  "(invalid_addItem request \<longrightarrow>
      (\<exists>message. handle_addItem (recording store) request (s, calls) =
                   (Failure INVALID_ARGUMENT message, (s, calls)))) \<and>
   (required (user_id grequest) = None \<longrightarrow>
      handle_getCart (recording store) grequest (s, calls) =
        (Failure INVALID_ARGUMENT ''user_id is required'', (s, calls)) \<and>
      handle_emptyCart (recording store) grequest (s, calls) =
        (Failure INVALID_ARGUMENT ''user_id is required'', (s, calls))) \<and>
   required None = None \<and> required (Some []) = None \<and>
   (required (Some str) = None) = (trimStart str = []) \<and>
   accepted_quantity Undefined = None \<and> accepted_quantity NotANumber = None \<and>
   (accepted_quantity (Number x) = None) = (x \<le> 0)"
proof -
  have "invalid_addItem request \<longrightarrow>
      (\<exists>message. handle_addItem (recording store) request (s, calls) =
                   (Failure INVALID_ARGUMENT message, (s, calls)))"
    using handle_addItem_invalid [of request "recording store" "(s, calls)"] by blast
  moreover have "(required (Some str) = None) = (trimStart str = [])"
    by (cases str) (simp_all add: required_def)
  moreover have "(accepted_quantity (Number x) = None) = (x \<le> 0)"
    by (auto simp: accepted_quantity_def)
  ultimately show ?thesis
    by (simp add: handle_getCart_def handle_emptyCart_def required_def accepted_quantity_def)
qed

theorem validation_precedes_storage_witness:
  "(\<exists>message.
      handle_addItem (recording MemoryStore)
        \<lparr>user_id = Some ''u1'', item = Some \<lparr>product_id = Some [], quantity_of = Number 1\<rparr>\<rparr>
        ([''u1'' \<mapsto> \<lparr>userId = ''u1'', items = [\<lparr>productId = ''p1'', quantity = 2\<rparr>]\<rparr>], []) =
      (Failure INVALID_ARGUMENT message,
       ([''u1'' \<mapsto> \<lparr>userId = ''u1'', items = [\<lparr>productId = ''p1'', quantity = 2\<rparr>]\<rparr>], []))) \<and>
   (\<exists>message.
      handle_addItem (recording MemoryStore)
        \<lparr>user_id = Some ''u1'', item = Some \<lparr>product_id = Some ''p1'', quantity_of = Number 0\<rparr>\<rparr>
        ([''u1'' \<mapsto> \<lparr>userId = ''u1'', items = [\<lparr>productId = ''p1'', quantity = 2\<rparr>]\<rparr>], []) =
      (Failure INVALID_ARGUMENT message,
       ([''u1'' \<mapsto> \<lparr>userId = ''u1'', items = [\<lparr>productId = ''p1'', quantity = 2\<rparr>]\<rparr>], []))) \<and>
   handle_getCart (recording RedisStore) \<lparr>user_id = Some ''  ''\<rparr> (fresh_client, []) =
     (Failure INVALID_ARGUMENT ''user_id is required'', (fresh_client, [])) \<and>
   handle_emptyCart (recording RedisStore) \<lparr>user_id = None\<rparr> (fresh_client, []) =
     (Failure INVALID_ARGUMENT ''user_id is required'', (fresh_client, []))"
proof -
  let ?carts = "[''u1'' \<mapsto> \<lparr>userId = ''u1'', items = [\<lparr>productId = ''p1'', quantity = 2\<rparr>]\<rparr>]"
  have a: "invalid_addItem
      \<lparr>user_id = Some ''u1'', item = Some \<lparr>product_id = Some [], quantity_of = Number 1\<rparr>\<rparr>"
    by (simp add: invalid_addItem_def required_def)
  have b: "invalid_addItem
      \<lparr>user_id = Some ''u1'', item = Some \<lparr>product_id = Some ''p1'', quantity_of = Number 0\<rparr>\<rparr>"
    by (simp add: invalid_addItem_def accepted_quantity_def)
  have c: "required (user_id \<lparr>user_id = Some ''  ''\<rparr>) = None"
    "required (user_id \<lparr>user_id = None\<rparr>) = None"
    by (simp_all add: required_def)
  from validation_precedes_storage [of _ MemoryStore ?carts "[]"] a b
       validation_precedes_storage [of _ RedisStore fresh_client "[]" "\<lparr>user_id = Some ''  ''\<rparr>"]
       validation_precedes_storage [of _ RedisStore fresh_client "[]" "\<lparr>user_id = None\<rparr>"] c
  show ?thesis
    by blast
qed

text \<open>
  C6 (as amended). A storage \<open>addItem\<close> that the handler invokes carries the user, the
  product and the quantity of the request, and that quantity is a number strictly greater
  than 0 (never missing, \<open>NaN\<close>, zero or negative). The handler does not ask whether the
  quantity is an integer: every request with a non-blank user, a non-blank product and a
  quantity \<open>x > 0\<close>, whole or not, is passed to the store with \<open>x\<close>. So the quantity reaching
  storage is an integer exactly when the request's quantity is.
\<close>

theorem handler_passes_positive_quantity:
  "(AddItemCall u p q \<in> set (snd (snd (handle_addItem (recording store) request (s, [])))) \<longrightarrow>
      0 < q \<and> required (user_id request) = Some u \<and>
      (\<exists>payload. item request = Some payload \<and> required (product_id payload) = Some p \<and>
                 quantity_of payload = Number q)) \<and>
   (required (user_id request) = Some u \<and> item request = Some payload \<and>
    required (product_id payload) = Some p \<and> quantity_of payload = Number x \<and> 0 < x \<longrightarrow>
      snd (snd (handle_addItem (recording store) request (s, calls))) =
        calls @ [AddItemCall u p x])"
proof -
  have first: "0 < q \<and> required (user_id request) = Some u \<and>
      (\<exists>payload. item request = Some payload \<and> required (product_id payload) = Some p \<and>
                 quantity_of payload = Number q)"
    if a: "AddItemCall u p q \<in> set (snd (snd (handle_addItem (recording store) request (s, []))))"
  proof (cases "invalid_addItem request")
    case True
    then obtain message where
      "handle_addItem (recording store) request (s, []) = (Failure INVALID_ARGUMENT message, (s, []))"
      using handle_addItem_invalid [of request "recording store" "(s, [])"] by blast
    with a show ?thesis by simp
  next
    case False
    then obtain u' payload' p' q' where
      v: "required (user_id request) = Some u'" "item request = Some payload'"
         "required (product_id payload') = Some p'"
         "accepted_quantity (quantity_of payload') = Some q'"
      by (auto simp: invalid_addItem_def split: option.splits)
    then have "snd (snd (handle_addItem (recording store) request (s, []))) =
        [] @ [AddItemCall u' p' q']"
      by (rule handle_addItem_valid)
    with a have "u' = u" "p' = p" "q' = q"
      by simp_all
    with v show ?thesis
      by (simp add: accepted_quantity_Some)
  qed
  have second: "snd (snd (handle_addItem (recording store) request (s, calls))) =
        calls @ [AddItemCall u p x]"
    if "required (user_id request) = Some u \<and> item request = Some payload \<and>
      required (product_id payload) = Some p \<and> quantity_of payload = Number x \<and> 0 < x"
    using that by (simp add: handle_addItem_valid accepted_quantity_Some)
  from first second show ?thesis
    by blast
qed

theorem handler_passes_positive_quantity_witness:
  "snd (snd (handle_addItem (recording MemoryStore)
               \<lparr>user_id = Some ''u1'',
                  item = Some \<lparr>product_id = Some ''p1'', quantity_of = Number 2\<rparr>\<rparr>
               (MemoryStore_init, []))) = [AddItemCall ''u1'' ''p1'' 2] \<and>
   (0::real) < 2"
proof -
  let ?payload = "\<lparr>product_id = Some ''p1'', quantity_of = Number 2\<rparr>"
  let ?request = "\<lparr>user_id = Some ''u1'', item = Some ?payload\<rparr>"
  have v: "required (user_id ?request) = Some ''u1''" "item ?request = Some ?payload"
    "required (product_id ?payload) = Some ''p1''" "quantity_of ?payload = Number 2"
    by (simp_all add: required_def)
  have pos: "(0::real) < 2"
    by simp
  note inst = handler_passes_positive_quantity
    [of "''u1''" "''p1''" 2 MemoryStore ?request MemoryStore_init ?payload 2 "[]"]
  from inst v pos
  have "snd (snd (handle_addItem (recording MemoryStore) ?request (MemoryStore_init, []))) =
      [] @ [AddItemCall ''u1'' ''p1'' 2]"
    by blast
  then have calls:
    "snd (snd (handle_addItem (recording MemoryStore) ?request (MemoryStore_init, []))) =
      [AddItemCall ''u1'' ''p1'' 2]"
    by simp
  then have "AddItemCall ''u1'' ''p1'' 2 \<in>
      set (snd (snd (handle_addItem (recording MemoryStore) ?request (MemoryStore_init, []))))"
    by simp
  with inst have "(0::real) < 2"
    by blast
  with calls show ?thesis ..
qed

theorem handler_passes_positive_quantity_counterexample:
  "snd (snd (handle_addItem (recording MemoryStore)
               \<lparr>user_id = Some ''u1'',
                  item = Some \<lparr>product_id = Some ''p1'', quantity_of = Number (3 / 2)\<rparr>\<rparr>
               (MemoryStore_init, []))) = [AddItemCall ''u1'' ''p1'' (3 / 2)] \<and>
   \<not> is_integer (3 / 2)"
proof -
  let ?payload = "\<lparr>product_id = Some ''p1'', quantity_of = Number (3 / 2)\<rparr>"
  let ?request = "\<lparr>user_id = Some ''u1'', item = Some ?payload\<rparr>"
  have "required (user_id ?request) = Some ''u1''" "item ?request = Some ?payload"
    "required (product_id ?payload) = Some ''p1''"
    "accepted_quantity (quantity_of ?payload) = Some (3 / 2)"
    by (simp_all add: required_def accepted_quantity_def)
  then have "snd (snd (handle_addItem (recording MemoryStore) ?request (MemoryStore_init, []))) =
      [] @ [AddItemCall ''u1'' ''p1'' (3 / 2)]"
    by (rule handle_addItem_valid)
  moreover have "\<not> is_integer (3 / 2)"
    by (simp add: is_integer_def)
  ultimately show ?thesis by simp
qed

subsection \<open>Undecodable bytes in the Remote Store\<close>









end
